theory Spec2Isabelle
  imports Main "HOL-Library.Log_Nat"
begin

section \<open>Data model of the migration tool (src/app.js)\<close>

text \<open>
  The item and migration statuses are the string constants the code assigns
  (\<^verbatim>\<open>'pending'\<close>, \<^verbatim>\<open>'in_progress'\<close>, \<^verbatim>\<open>'completed'\<close>, \<^verbatim>\<open>'failed'\<close>, \<^verbatim>\<open>'skipped'\<close>
  for items; \<^verbatim>\<open>'created'\<close>, \<^verbatim>\<open>'running'\<close>, \<^verbatim>\<open>'completed'\<close>, \<^verbatim>\<open>'failed'\<close>,
  \<^verbatim>\<open>'cancelled'\<close> for migrations). Fields that come from the request body
  (\<^verbatim>\<open>itemType\<close>, \<^verbatim>\<open>conflictStrategy\<close>, names, ids) stay strings. The ISO timestamps
  (\<^verbatim>\<open>createdAt\<close>, \<^verbatim>\<open>startedAt\<close>, \<^verbatim>\<open>completedAt\<close>) are written and never read by
  the code modelled here; they are left out.
\<close>

datatype item_status = Pending | InProgress | Completed | Failed | Skipped

datatype migration_status = Created | Running | MigCompleted | MigFailed | Cancelled

datatype conflict_type = NAME_EXISTS

record progress =
  p_migrationId :: "string option"
  p_total :: nat
  p_completed :: nat
  p_failed :: nat
  p_skipped :: nat
  p_percentage :: "int option"
  p_currentItem :: "string option"

record migration_options =
  mode :: "string option"
  conflictStrategy :: "string option"

record migration =
  migId :: string
  tenantId :: string
  sourceSpaceId :: string
  sourceSpaceName :: string
  targetSpaceId :: string
  targetSpaceName :: string
  migStatus :: migration_status
  options :: migration_options
  migProgress :: progress

record migration_item =
  itemId :: string
  migrationId :: string
  sourceId :: string
  itemType :: string
  name :: string
  sizeBytes :: nat
  status :: item_status
  conflictType :: "conflict_type option"
  conflictResolution :: "string option"
  targetId :: "string option"
  errorMessage :: "string option"

text \<open>The in-memory store: \<^verbatim>\<open>store.migrations\<close> and \<^verbatim>\<open>store.migrationItems\<close>.\<close>

record store =
  migrations :: "string \<rightharpoonup> migration"
  migrationItems :: "string \<rightharpoonup> migration_item list"

text \<open>An HTTP response: a JSON body, or a status code with an error text.\<close>

datatype 'a response = Json 'a | Error nat string

section \<open>POST /api/migrations/:migrationId/cancel\<close>

definition cancelMigration :: "string \<Rightarrow> store \<Rightarrow> migration response \<times> store" where
  "cancelMigration mid st =
     (case migrations st mid of
        None \<Rightarrow> (Error 404 ''Not found'', st)
      | Some migration \<Rightarrow>
          (let migration' = migration\<lparr>migStatus := Cancelled\<rparr>
           in (Json migration', st\<lparr>migrations := (migrations st)(mid \<mapsto> migration')\<rparr>)))"


section \<open>JavaScript values\<close>

text \<open>
  Truthiness of a possibly absent string: \<^verbatim>\<open>undefined\<close>, \<^verbatim>\<open>null\<close> and \<^verbatim>\<open>''\<close> are
  falsy. \<^verbatim>\<open>a || b\<close> yields \<^verbatim>\<open>a\<close> when it is truthy and \<^verbatim>\<open>b\<close> otherwise.
\<close>

definition truthy :: "string option \<Rightarrow> bool" where
  "truthy v = (case v of None \<Rightarrow> False | Some s \<Rightarrow> s \<noteq> [])"

definition js_or :: "string option \<Rightarrow> string option \<Rightarrow> string option" where
  "js_or a b = (if truthy a then a else b)"

text \<open>Decimal rendering of a non-negative integer, as a template literal prints it.\<close>

definition digit :: "nat \<Rightarrow> char" where
  "digit d = ''0123456789'' ! d"

function dec :: "nat \<Rightarrow> string" where
  "dec n = (if n < 10 then [digit n] else dec (n div 10) @ [digit (n mod 10)])"
  by pat_completeness auto
termination
  by (relation "measure (\<lambda>n. n)") auto

text \<open>Reading the digits back, to show that the rendering loses nothing.\<close>

definition undec :: "string \<Rightarrow> nat" where
  "undec s = foldl (\<lambda>a c. 10 * a + (of_char c - 48)) 0 s"

text \<open>
  Numbers are IEEE-754 doubles. \<open>fl\<close> rounds a rational to the nearest double
  (53 significant bits, ties to even); the exponent range is not modelled, which is
  exact for the quotients and products below (zero, or between \<open>1 / 2 ^ 32\<close> and 100).
  \<^verbatim>\<open>Math.round\<close> takes a double to the nearest integer, ties towards \<open>+\<infinity>\<close>.
\<close>

definition round_half_even :: "rat \<Rightarrow> int" where
  "round_half_even x =
     (let f = \<lfloor>x\<rfloor>; d = x - of_int f
      in if d < 1 / 2 then f else if 1 / 2 < d then f + 1 else if even f then f else f + 1)"

definition ilog2 :: "rat \<Rightarrow> int" where
  "ilog2 x =
     (let d = bitlen (fst (quotient_of x)) - bitlen (snd (quotient_of x))
      in if 2 powi d \<le> x then d else d - 1)"

definition fl :: "rat \<Rightarrow> rat" where
  "fl x =
     (if x = 0 then 0
      else let u = 2 powi (ilog2 \<bar>x\<bar> - 52) in of_int (round_half_even (x / u)) * u)"

definition Math_round :: "rat \<Rightarrow> int" where
  "Math_round x = \<lfloor>x + 1 / 2\<rfloor>"

text \<open>
  \<^verbatim>\<open>Math.round((completed / total) * 100)\<close>. With \<^verbatim>\<open>total\<close> zero the quotient is
  \<^verbatim>\<open>NaN\<close> or \<^verbatim>\<open>Infinity\<close> and so is the result: \<open>None\<close>.
\<close>

definition js_percentage :: "nat \<Rightarrow> nat \<Rightarrow> int option" where
  "js_percentage completed total' =
     (if total' = 0 then None
      else Some (Math_round (fl (fl (of_nat completed / of_nat total') * 100))))"

section \<open>QlikService: the remote client\<close>

text \<open>
  The HTTP requests are the environment: each either throws (\<open>Inl\<close> the error's
  message) or yields the \<^verbatim>\<open>data\<close> array of the response (\<^verbatim>\<open>result.data || []\<close>).
\<close>

record space =
  spaceName :: string

record connection =
  qName :: string

record data_files_connection =
  dfcId :: string
  dfcSpaceId :: "string option"

record data_file =
  dfName :: "string option"
  dfBaseName :: "string option"
  dfSpaceId :: "string option"

record remote =
  spaceRequest :: "string \<Rightarrow> string + space"
  connectionsRequest :: "string option \<Rightarrow> string + connection list"
  dataFilesConnectionsRequest :: "string + data_files_connection list"
  dataFilesRequest :: "string option \<Rightarrow> bool \<Rightarrow> string + data_file list"

definition getSpace :: "remote \<Rightarrow> string \<Rightarrow> string + space" where
  "getSpace r spaceId = spaceRequest r spaceId"

definition listConnections :: "remote \<Rightarrow> string option \<Rightarrow> string + connection list" where
  "listConnections r spaceId = connectionsRequest r (if truthy spaceId then spaceId else None)"

definition getDataFilesConnectionId :: "remote \<Rightarrow> string \<Rightarrow> string + string option" where
  "getDataFilesConnectionId r spaceId =
     (case dataFilesConnectionsRequest r of
        Inl err \<Rightarrow> Inl err
      | Inr connections \<Rightarrow>
          Inr (case find (\<lambda>c. dfcSpaceId c = Some spaceId) connections of
                 None \<Rightarrow> None
               | Some conn \<Rightarrow> Some (dfcId conn)))"

definition listDataFiles :: "remote \<Rightarrow> string \<Rightarrow> bool \<Rightarrow> string + data_file list" where
  "listDataFiles r spaceId includeFolders =
     (case getDataFilesConnectionId r spaceId of
        Inl err \<Rightarrow> Inl err
      | Inr connectionId \<Rightarrow>
          (case dataFilesRequest r (if truthy connectionId then connectionId else None) includeFolders of
             Inl err \<Rightarrow> Inl err
           | Inr files \<Rightarrow>
               Inr (if \<not> truthy connectionId
                    then filter (\<lambda>f. dfSpaceId f = Some spaceId) files else files)))"

definition checkConnectionConflicts :: "remote \<Rightarrow> string \<Rightarrow> string list \<Rightarrow> string + string list" where
  "checkConnectionConflicts r targetSpaceId' connectionNames =
     (case listConnections r (Some targetSpaceId') of
        Inl err \<Rightarrow> Inl err
      | Inr existing \<Rightarrow>
          Inr (filter (\<lambda>n. n \<in> set (map qName existing)) connectionNames))"

definition checkFileConflicts :: "remote \<Rightarrow> string \<Rightarrow> string list \<Rightarrow> string + string list" where
  "checkFileConflicts r targetSpaceId' fileNames =
     (case listDataFiles r targetSpaceId' True of
        Inl err \<Rightarrow> Inl err
      | Inr existing \<Rightarrow>
          Inr (filter (\<lambda>n. Some n \<in> set (map (\<lambda>f. js_or (dfName f) (dfBaseName f)) existing))
                 fileNames))"

section \<open>POST /api/migrations: creating a migration\<close>

record candidate =
  c_sourceId :: string
  c_itemType :: string
  c_name :: string
  c_sizeBytes :: "nat option"

record create_request =
  r_sourceSpaceId :: "string option"
  r_targetSpaceId :: "string option"
  r_items :: "candidate list option"
  r_options :: "migration_options option"

record create_response =
  cr_migration :: migration
  cr_items :: "migration_item list"
  cr_conflicts :: "(string \<times> conflict_type) list"

text \<open>\<^verbatim>\<open>options?.conflictStrategy || 'skip'\<close>\<close>

definition strategy :: "migration_options option \<Rightarrow> string" where
  "strategy opts =
     (case opts of
        None \<Rightarrow> ''skip''
      | Some opt \<Rightarrow> (if truthy (conflictStrategy opt) then the (conflictStrategy opt) else ''skip''))"

definition makeItem ::
  "string \<Rightarrow> string \<Rightarrow> string list \<Rightarrow> migration_options option \<Rightarrow> candidate \<Rightarrow> migration_item" where
  "makeItem uuid migrationId' allConflicts opts item =
     \<lparr>itemId = uuid,
      migrationId = migrationId',
      sourceId = c_sourceId item,
      itemType = c_itemType item,
      name = c_name item,
      sizeBytes = (case c_sizeBytes item of None \<Rightarrow> 0 | Some n \<Rightarrow> n),
      status = Pending,
      conflictType = (if c_name item \<in> set allConflicts then Some NAME_EXISTS else None),
      conflictResolution = (if c_name item \<in> set allConflicts then Some (strategy opts) else None),
      targetId = None,
      errorMessage = None\<rparr>"

text \<open>
  The handler. \<open>uuids k\<close> is the result of the \<open>k\<close>-th call of \<^verbatim>\<open>generateUUID\<close>
  (the migration id first, then one id per item, in order); every exception inside the
  \<^verbatim>\<open>try\<close> block becomes the answer 500.
\<close>

definition createMigration ::
  "remote \<Rightarrow> (nat \<Rightarrow> string) \<Rightarrow> string \<Rightarrow> create_request \<Rightarrow> store
     \<Rightarrow> create_response response \<times> store" where
  "createMigration r uuids tenant req st =
     (if \<not> truthy (r_sourceSpaceId req) \<or> \<not> truthy (r_targetSpaceId req)
         \<or> (case r_items req of None \<Rightarrow> True | Some items \<Rightarrow> items = [])
      then (Error 400 ''Missing required fields'', st)
      else
        let src = the (r_sourceSpaceId req); tgt = the (r_targetSpaceId req);
            items = the (r_items req)
        in case getSpace r src of
             Inl err \<Rightarrow> (Error 500 err, st)
           | Inr sourceSpace \<Rightarrow>
        (case getSpace r tgt of
             Inl err \<Rightarrow> (Error 500 err, st)
           | Inr targetSpace \<Rightarrow>
        (let connNames = map c_name (filter (\<lambda>i. c_itemType i = ''connection'') items);
             fileNames = map c_name (filter (\<lambda>i. c_itemType i \<noteq> ''connection'') items)
         in case checkConnectionConflicts r tgt connNames of
              Inl err \<Rightarrow> (Error 500 err, st)
            | Inr connConflicts \<Rightarrow>
         (case checkFileConflicts r tgt fileNames of
              Inl err \<Rightarrow> (Error 500 err, st)
            | Inr fileConflicts \<Rightarrow>
         (let allConflicts = connConflicts @ fileConflicts;
              migrationId' = uuids 0;
              migration =
                \<lparr>migId = migrationId',
                 tenantId = tenant,
                 sourceSpaceId = src,
                 sourceSpaceName = spaceName sourceSpace,
                 targetSpaceId = tgt,
                 targetSpaceName = spaceName targetSpace,
                 migStatus = Created,
                 options = (case r_options req of
                              None \<Rightarrow> \<lparr>mode = Some ''copy'', conflictStrategy = Some ''skip''\<rparr>
                            | Some opt \<Rightarrow> opt),
                 migProgress =
                   \<lparr>p_migrationId = None, p_total = length items, p_completed = 0,
                    p_failed = 0, p_skipped = 0, p_percentage = Some 0,
                    p_currentItem = None\<rparr>\<rparr>;
              migrationItems' =
                map (\<lambda>(k, item). makeItem (uuids (Suc k)) migrationId' allConflicts (r_options req) item)
                  (enumerate 0 items)
          in (Json \<lparr>cr_migration = migration, cr_items = migrationItems',
                    cr_conflicts = map (\<lambda>n. (n, NAME_EXISTS)) allConflicts\<rparr>,
              st\<lparr>migrations := (migrations st)(migrationId' \<mapsto> migration),
                 migrationItems := (migrationItems st)(migrationId' \<mapsto> migrationItems')\<rparr>))))))"

section \<open>MigrationService.executeMigration\<close>

text \<open>
  What the engine sends to the remote client: \<^verbatim>\<open>duplicateConnection(sourceId,
  targetSpaceId, newName)\<close>, \<^verbatim>\<open>copyFolder(sourceId, targetConnectionId, folderName)\<close>
  and \<^verbatim>\<open>copyDataFile(sourceId, targetConnectionId, fileName)\<close>.
\<close>

datatype remote_call =
    DuplicateConnection string string "string option"
  | CopyFolder string "string option" string
  | CopyDataFile string "string option" string

text \<open>
  The environment of one run. \<open>callResult i c\<close> is the outcome of the call \<open>c\<close> made
  for the item at position \<open>i\<close>: \<open>Inr\<close> the id the remote system gave the copy
  (\<^verbatim>\<open>result.qID\<close>, \<^verbatim>\<open>result.id\<close>), or \<open>Inl\<close> the message of the error caught.
  \<open>dateNow i\<close> is \<^verbatim>\<open>Date.now()\<close> as read for that item. The run yields to other
  request handlers only where it awaits: \<open>cancelAtResolve\<close> says that a cancel request
  was served while the file-storage connection was being resolved, \<open>cancelDuring i\<close>
  that one was served during the remote call or the 200 ms pause of item \<open>i\<close>.
\<close>

record exec_env =
  client :: remote
  callResult :: "nat \<Rightarrow> remote_call \<Rightarrow> string + string"
  dateNow :: "nat \<Rightarrow> nat"
  cancelAtResolve :: bool
  cancelDuring :: "nat \<Rightarrow> bool"

text \<open>
  What happens during a run, in order: a progress notification handed to the callback, a
  call sent to the remote client, a status written to an item. Each event carries the
  position of the item whose iteration produced it.
\<close>

datatype event =
    Progress nat progress
  | Remote nat remote_call
  | ItemStatus nat item_status

text \<open>
  The state of the loop: the migration object (shared with the store), the items handled
  so far as the loop left them, the three local counters, the events so far, and the
  migration as a status poll sees it at each point where the run awaits.
\<close>

record exec_state =
  mig :: migration
  processed :: "migration_item list"
  completed :: nat
  failed :: nat
  skipped :: nat
  trace :: "event list"
  observed :: "migration list"

definition hasConflict :: "migration_item \<Rightarrow> bool" where
  "hasConflict item = (conflictType item \<noteq> None)"

definition effectiveName :: "exec_env \<Rightarrow> nat \<Rightarrow> migration_item \<Rightarrow> string" where
  "effectiveName env i item =
     (if hasConflict item \<and> conflictResolution item = Some ''rename''
      then name item @ ''_copy_'' @ dec (dateNow env i)
      else name item)"

definition remoteCall ::
  "string \<Rightarrow> string option \<Rightarrow> migration_item \<Rightarrow> string \<Rightarrow> remote_call option" where
  "remoteCall targetSpace targetConnectionId item newName =
     (if itemType item = ''connection''
      then Some (DuplicateConnection (sourceId item) targetSpace
                   (if newName \<noteq> name item then Some newName else None))
      else if itemType item = ''folder''
      then Some (CopyFolder (sourceId item) targetConnectionId newName)
      else if itemType item = ''file''
      then Some (CopyDataFile (sourceId item) targetConnectionId newName)
      else None)"

text \<open>
  The outcome of the dispatch: no call for an item of another kind, else the id of the
  copy or the message of the error thrown.
\<close>

definition attempt :: "exec_env \<Rightarrow> nat \<Rightarrow> remote_call option \<Rightarrow> string + string option" where
  "attempt env i call =
     (case call of
        None \<Rightarrow> Inr None
      | Some c \<Rightarrow> (case callResult env i c of Inl msg \<Rightarrow> Inl msg | Inr tid \<Rightarrow> Inr (Some tid)))"

definition callEvents :: "nat \<Rightarrow> remote_call option \<Rightarrow> event list" where
  "callEvents i call = (case call of None \<Rightarrow> [] | Some c \<Rightarrow> [Remote i c])"

text \<open>The progress callback of the start handler: it stores the notification.\<close>

definition notify :: "nat \<Rightarrow> progress \<Rightarrow> exec_state \<Rightarrow> exec_state" where
  "notify i p s = s\<lparr>mig := (mig s)\<lparr>migProgress := p\<rparr>, trace := trace s @ [Progress i p]\<rparr>"

definition suspend :: "bool \<Rightarrow> exec_state \<Rightarrow> exec_state" where
  "suspend cancelled s =
     (let m = (if cancelled then (mig s)\<lparr>migStatus := Cancelled\<rparr> else mig s)
      in s\<lparr>mig := m, observed := observed s @ [m]\<rparr>)"

text \<open>The payload of the notification sent for an item, from the counters as they stand.\<close>

definition progressOf :: "nat \<Rightarrow> migration_item \<Rightarrow> exec_state \<Rightarrow> progress" where
  "progressOf total' item s =
     \<lparr>p_migrationId = Some (migId (mig s)), p_total = total',
      p_completed = completed s, p_failed = failed s, p_skipped = skipped s,
      p_percentage = js_percentage (completed s) total',
      p_currentItem = Some (name item)\<rparr>"

text \<open>One iteration of \<^verbatim>\<open>for (const item of items)\<close>, for the item at position \<open>i\<close>.\<close>

definition processItem ::
  "exec_env \<Rightarrow> string option \<Rightarrow> nat \<Rightarrow> nat \<Rightarrow> migration_item \<Rightarrow> exec_state \<Rightarrow> exec_state" where
  "processItem env targetConnectionId total' i item s =
     (if migStatus (mig s) = Cancelled
      then s\<lparr>processed := processed s @ [item\<lparr>status := Skipped\<rparr>],
             skipped := skipped s + 1,
             trace := trace s @ [ItemStatus i Skipped]\<rparr>
      else
        let s1 = notify i (progressOf total' item s) s;
            item1 = item\<lparr>status := InProgress\<rparr>
        in if hasConflict item1 \<and> conflictResolution item1 = Some ''skip''
           then s1\<lparr>processed := processed s1 @ [item1\<lparr>status := Skipped\<rparr>],
                   skipped := skipped s1 + 1,
                   trace := trace s1 @ [ItemStatus i InProgress, ItemStatus i Skipped]\<rparr>
           else
             let newName = effectiveName env i item1;
                 call = remoteCall (targetSpaceId (mig s1)) targetConnectionId item1 newName
             in suspend (cancelDuring env i)
                  (case attempt env i call of
                     Inr tid \<Rightarrow>
                       s1\<lparr>processed := processed s1 @
                             [item1\<lparr>targetId := (case tid of None \<Rightarrow> targetId item1
                                                   | Some t \<Rightarrow> Some t),
                                    status := Completed\<rparr>],
                          completed := completed s1 + 1,
                          trace := trace s1 @ ItemStatus i InProgress # callEvents i call
                                     @ [ItemStatus i Completed]\<rparr>
                   | Inl msg \<Rightarrow>
                       s1\<lparr>processed := processed s1 @
                             [item1\<lparr>status := Failed, errorMessage := Some msg\<rparr>],
                          failed := failed s1 + 1,
                          trace := trace s1 @ ItemStatus i InProgress # callEvents i call
                                     @ [ItemStatus i Failed]\<rparr>))"

fun processItems ::
  "exec_env \<Rightarrow> string option \<Rightarrow> nat \<Rightarrow> nat \<Rightarrow> migration_item list \<Rightarrow> exec_state \<Rightarrow> exec_state" where
  "processItems env targetConnectionId total' i [] s = s"
| "processItems env targetConnectionId total' i (item # items) s =
     processItems env targetConnectionId total' (Suc i) items
       (processItem env targetConnectionId total' i item s)"

text \<open>
  The whole run. When resolving the target's file-storage connection throws, the promise
  is rejected (\<open>Inl\<close>) with the migration as it stands then; otherwise the loop runs and
  the final status and progress are written.
\<close>

definition initState :: "migration \<Rightarrow> exec_state" where
  "initState m =
     \<lparr>mig = m, processed = [], completed = 0, failed = 0, skipped = 0, trace = [],
      observed = [m]\<rparr>"

definition finish :: "nat \<Rightarrow> exec_state \<Rightarrow> exec_state" where
  "finish total' s =
     s\<lparr>mig := (mig s)
         \<lparr>migStatus := (if failed s = total' then MigFailed else MigCompleted),
          migProgress :=
            \<lparr>p_migrationId = None, p_total = total', p_completed = completed s,
             p_failed = failed s, p_skipped = skipped s, p_percentage = Some 100,
             p_currentItem = None\<rparr>\<rparr>\<rparr>"

text \<open>
  The migration once \<^verbatim>\<open>status = 'running'\<close> is written and the run has awaited the
  connection id (a cancel request served meanwhile has set \<^verbatim>\<open>'cancelled'\<close>).
\<close>

definition started :: "exec_env \<Rightarrow> migration \<Rightarrow> migration" where
  "started env migration =
     (let m1 = migration\<lparr>migStatus := Running\<rparr>
      in if cancelAtResolve env then m1\<lparr>migStatus := Cancelled\<rparr> else m1)"

definition executeMigration ::
  "exec_env \<Rightarrow> migration \<Rightarrow> migration_item list \<Rightarrow> (string \<times> migration) + exec_state" where
  "executeMigration env migration items =
     (let total' = length items;
          m2 = started env migration
      in case getDataFilesConnectionId (client env) (targetSpaceId m2) of
           Inl err \<Rightarrow> Inl (err, m2)
         | Inr targetConnectionId \<Rightarrow>
             Inr (finish total' (processItems env targetConnectionId total' 0 items (initState m2))))"

section \<open>POST /api/migrations/:migrationId/start\<close>

text \<open>
  The handler answers as soon as the run first awaits; the run goes on in the background
  and its rejection is only logged. The model returns the answer together with the store
  as it is once the run has ended. The migration object and the item array are shared by
  reference with the store entries under the request's id, so those entries change with
  them; the run also stores both under the migration's own id.
\<close>

definition startMigration :: "exec_env \<Rightarrow> string \<Rightarrow> store \<Rightarrow> migration response \<times> store" where
  "startMigration env mid st =
     (case migrations st mid of
        None \<Rightarrow> (Error 404 ''Not found'', st)
      | Some migration \<Rightarrow>
          if migStatus migration \<noteq> Created then (Error 400 ''Already started'', st)
          else
            (case migrationItems st mid of
               None \<Rightarrow> (Json migration, st)
             | Some items \<Rightarrow>
                 (Json (migration\<lparr>migStatus := Running\<rparr>),
                  (case executeMigration env migration items of
                     Inl (err, m) \<Rightarrow>
                       st\<lparr>migrations := (migrations st)(mid \<mapsto> m, migId m \<mapsto> m)\<rparr>
                   | Inr s \<Rightarrow>
                       st\<lparr>migrations := (migrations st)(mid \<mapsto> mig s, migId (mig s) \<mapsto> mig s),
                          migrationItems :=
                            (migrationItems st)(mid \<mapsto> processed s, migId (mig s) \<mapsto> processed s)\<rparr>))))"

section \<open>Notions used to state the properties\<close>

text \<open>The state of a run at the top of the iteration for the item at position \<open>k\<close>.\<close>

definition stateBefore :: "exec_env \<Rightarrow> migration \<Rightarrow> migration_item list \<Rightarrow> nat \<Rightarrow> exec_state" where
  "stateBefore env migration items k =
     (case getDataFilesConnectionId (client env) (targetSpaceId (started env migration)) of
        Inl err \<Rightarrow> initState (started env migration)
      | Inr targetConnectionId \<Rightarrow>
          processItems env targetConnectionId (length items) 0 (take k items)
            (initState (started env migration)))"

definition countStatus :: "item_status \<Rightarrow> migration_item list \<Rightarrow> nat" where
  "countStatus st items = length (filter (\<lambda>it. status it = st) items)"

definition settled :: "migration_item \<Rightarrow> bool" where
  "settled it \<longleftrightarrow> status it = Completed \<or> status it = Failed \<or> status it = Skipped"

text \<open>The counters agree with the statuses of the items handled so far.\<close>

definition counted :: "exec_state \<Rightarrow> bool" where
  "counted s \<longleftrightarrow>
     completed s = countStatus Completed (processed s) \<and>
     failed s = countStatus Failed (processed s) \<and>
     skipped s = countStatus Skipped (processed s) \<and>
     list_all settled (processed s)"

definition progressSum :: "progress \<Rightarrow> nat" where
  "progressSum p = p_completed p + p_failed p + p_skipped p"

definition progressOk :: "nat \<Rightarrow> progress \<Rightarrow> bool" where
  "progressOk n p \<longleftrightarrow> p_total p = n \<and> progressSum p \<le> n"

definition eventOk :: "nat \<Rightarrow> event \<Rightarrow> bool" where
  "eventOk n e = (case e of Progress k p \<Rightarrow> progressOk n p | _ \<Rightarrow> True)"

text \<open>
  What a status poll may see while the loop runs: counts within the total, and a status
  that is not yet final.
\<close>

definition snapshotOk :: "nat \<Rightarrow> migration \<Rightarrow> bool" where
  "snapshotOk n m \<longleftrightarrow>
     progressOk n (migProgress m) \<and> (migStatus m = Running \<or> migStatus m = Cancelled)"

definition runInv :: "nat \<Rightarrow> exec_state \<Rightarrow> bool" where
  "runInv n s \<longleftrightarrow>
     snapshotOk n (mig s) \<and> list_all (snapshotOk n) (observed s) \<and> list_all (eventOk n) (trace s)"

fun eventIndex :: "event \<Rightarrow> nat" where
  "eventIndex (Progress k p) = k"
| "eventIndex (Remote k c) = k"
| "eventIndex (ItemStatus k st) = k"

text \<open>The name a remote call carries, if any.\<close>

fun callName :: "remote_call \<Rightarrow> string option" where
  "callName (DuplicateConnection sid space newName) = newName"
| "callName (CopyFolder sid conn folderName) = Some folderName"
| "callName (CopyDataFile sid conn fileName) = Some fileName"

text \<open>The item is one the loop skips because of its conflict.\<close>

definition conflictSkip :: "migration_item \<Rightarrow> bool" where
  "conflictSkip item \<longleftrightarrow> hasConflict item \<and> conflictResolution item = Some ''skip''"

text \<open>
  Later start and cancel requests, served one after the other. Every migration is stored
  under its own id, as the creation handler does.
\<close>

datatype request = Start exec_env string | Cancel string

fun serve :: "request list \<Rightarrow> store \<Rightarrow> store" where
  "serve [] st = st"
| "serve (Start env mid # rs) st = serve rs (snd (startMigration env mid st))"
| "serve (Cancel mid # rs) st = serve rs (snd (cancelMigration mid st))"

definition storeOk :: "store \<Rightarrow> bool" where
  "storeOk st \<longleftrightarrow> (\<forall>k m. migrations st k = Some m \<longrightarrow> migId m = k)"

text \<open>
  The migration under \<open>mid\<close> is stuck: its items are \<open>items\<close> and its status is
  running, or, unless \<open>running\<close> is asked for, cancelled.
\<close>

definition stuckAt :: "string \<Rightarrow> migration_item list \<Rightarrow> bool \<Rightarrow> store \<Rightarrow> bool" where
  "stuckAt mid items running st \<longleftrightarrow>
     storeOk st \<and> migrationItems st mid = Some items \<and>
     (case migrations st mid of
        None \<Rightarrow> False
      | Some m \<Rightarrow> migStatus m = Running \<or> (\<not> running \<and> migStatus m = Cancelled))"

section \<open>A worked scenario\<close>

text \<open>
  Source space S holds the connection DB1 and the file report.csv (500 bytes); target
  space T already holds a connection named DB1. Both items are selected.
\<close>

definition exRemote :: remote where
  "exRemote =
     \<lparr>spaceRequest = (\<lambda>sid. Inr \<lparr>spaceName = ''Space '' @ sid\<rparr>),
      connectionsRequest = (\<lambda>sid. Inr [\<lparr>qName = ''DB1''\<rparr>]),
      dataFilesConnectionsRequest = Inr [\<lparr>dfcId = ''dc-T'', dfcSpaceId = Some ''T''\<rparr>],
      dataFilesRequest = (\<lambda>cid folders. Inr [])\<rparr>"

definition exCandidates :: "candidate list" where
  "exCandidates =
     [\<lparr>c_sourceId = ''c-1'', c_itemType = ''connection'', c_name = ''DB1'', c_sizeBytes = None\<rparr>,
      \<lparr>c_sourceId = ''f-1'', c_itemType = ''file'', c_name = ''report.csv'', c_sizeBytes = Some 500\<rparr>]"

definition exRequest :: "string \<Rightarrow> create_request" where
  "exRequest strat =
     \<lparr>r_sourceSpaceId = Some ''S'', r_targetSpaceId = Some ''T'',
      r_items = Some exCandidates,
      r_options = Some \<lparr>mode = Some ''copy'', conflictStrategy = Some strat\<rparr>\<rparr>"

definition exUuids :: "nat \<Rightarrow> string" where
  "exUuids k = ''id-'' @ dec k"

definition emptyStore :: store where
  "emptyStore = \<lparr>migrations = Map.empty, migrationItems = Map.empty\<rparr>"

definition exMigration :: migration where
  "exMigration =
     \<lparr>migId = ''id-0'', tenantId = ''tenant'', sourceSpaceId = ''S'',
      sourceSpaceName = ''Space S'', targetSpaceId = ''T'', targetSpaceName = ''Space T'',
      migStatus = Created,
      options = \<lparr>mode = Some ''copy'', conflictStrategy = Some ''skip''\<rparr>,
      migProgress = \<lparr>p_migrationId = None, p_total = 2, p_completed = 0, p_failed = 0,
                     p_skipped = 0, p_percentage = Some 0, p_currentItem = None\<rparr>\<rparr>"

definition exItem ::
  "string \<Rightarrow> string \<Rightarrow> string \<Rightarrow> string \<Rightarrow> nat \<Rightarrow> string option \<Rightarrow> migration_item" where
  "exItem uuid sid kind nm size' resolution =
     \<lparr>itemId = uuid, migrationId = ''id-0'', sourceId = sid, itemType = kind, name = nm,
      sizeBytes = size', status = Pending,
      conflictType = (case resolution of None \<Rightarrow> None | Some r \<Rightarrow> Some NAME_EXISTS),
      conflictResolution = resolution, targetId = None, errorMessage = None\<rparr>"

definition exItems :: "string \<Rightarrow> migration_item list" where
  "exItems strat =
     [exItem ''id-1'' ''c-1'' ''connection'' ''DB1'' 0 (Some strat),
      exItem ''id-2'' ''f-1'' ''file'' ''report.csv'' 500 None]"

definition exStore :: store where
  "exStore =
     \<lparr>migrations = [''id-0'' \<mapsto> exMigration],
      migrationItems = [''id-0'' \<mapsto> exItems ''skip'']\<rparr>"

text \<open>The same remote system, refusing to list connections.\<close>

definition exRemoteNoList :: remote where
  "exRemoteNoList = exRemote\<lparr>connectionsRequest := (\<lambda>sid. Inl ''forbidden'')\<rparr>"

text \<open>A request that selects a connection and a file of the same name.\<close>

definition exClashRequest :: create_request where
  "exClashRequest =
     \<lparr>r_sourceSpaceId = Some ''S'', r_targetSpaceId = Some ''T'',
      r_items = Some
        [\<lparr>c_sourceId = ''c-1'', c_itemType = ''connection'', c_name = ''DB1'', c_sizeBytes = None\<rparr>,
         \<lparr>c_sourceId = ''f-9'', c_itemType = ''file'', c_name = ''DB1'', c_sizeBytes = Some 12\<rparr>],
      r_options = None\<rparr>"

text \<open>A run where every remote call succeeds and nobody cancels.\<close>

definition exEnv :: exec_env where
  "exEnv =
     \<lparr>client = exRemote,
      callResult = (\<lambda>i c. Inr (''copy-'' @ dec i)),
      dateNow = (\<lambda>i. 1700000000000 + i),
      cancelAtResolve = False,
      cancelDuring = (\<lambda>i. False)\<rparr>"

text \<open>The same run, with a cancel request served while the first item is being copied.\<close>

definition exEnvCancel :: exec_env where
  "exEnvCancel = exEnv\<lparr>cancelDuring := (\<lambda>i. i = 0)\<rparr>"

text \<open>The remote system does not answer the request for the file-storage connections.\<close>

definition exEnvDown :: exec_env where
  "exEnvDown = exEnv\<lparr>client := exRemote\<lparr>dataFilesConnectionsRequest := Inl ''timeout''\<rparr>\<rparr>"

text \<open>A migration of forty files, all copied without trouble.\<close>

definition exManyFiles :: "migration_item list" where
  "exManyFiles = replicate 40 (exItem ''id-1'' ''f-1'' ''file'' ''report.csv'' 500 None)"

definition exManyMigration :: migration where
  "exManyMigration = exMigration\<lparr>migProgress := (migProgress exMigration)\<lparr>p_total := 40\<rparr>\<rparr>"

section \<open>Decimal rendering is injective\<close>

lemma digit_val: "d < 10 \<Longrightarrow> of_char (digit d) = (48 + d :: nat)"
proof -
  assume "d < 10"
  then have "d \<in> {0, 1, 2, 3, 4, 5, 6, 7, 8, 9}" by auto
  then show ?thesis by (auto simp: digit_def)
qed

lemma undec_append: "undec (xs @ [c]) = 10 * undec xs + (of_char c - 48)"
  by (simp add: undec_def)

lemma undec_dec: "undec (dec n) = n"
proof (induction n rule: dec.induct)
  case (1 n)
  show ?case
  proof (cases "n < 10")
    case True
    then show ?thesis by (simp add: undec_def digit_val)
  next
    case False
    then have "undec (dec n) = 10 * undec (dec (n div 10)) + (of_char (digit (n mod 10)) - 48)"
      by (subst dec.simps) (simp add: undec_append)
    with 1 False show ?thesis by (simp add: digit_val)
  qed
qed

lemma dec_inject: "dec a = dec b \<Longrightarrow> a = b"
  by (metis undec_dec)


section \<open>The loop, one iteration at a time\<close>

lemma remoteCall_status [simp]:
  "remoteCall ts tc (item\<lparr>status := x\<rparr>) n = remoteCall ts tc item n"
  by (simp add: remoteCall_def)

lemma effectiveName_status [simp]:
  "effectiveName env i (item\<lparr>status := x\<rparr>) = effectiveName env i item"
  by (simp add: effectiveName_def hasConflict_def)

lemma processItem_cancelled:
  "migStatus (mig s) = Cancelled \<Longrightarrow>
   processItem env tc tot i item s =
     s\<lparr>processed := processed s @ [item\<lparr>status := Skipped\<rparr>],
       skipped := skipped s + 1,
       trace := trace s @ [ItemStatus i Skipped]\<rparr>"
  by (simp add: processItem_def)

lemma processItem_skip:
  "migStatus (mig s) \<noteq> Cancelled \<Longrightarrow> conflictSkip item \<Longrightarrow>
   processItem env tc tot i item s =
     s\<lparr>mig := (mig s)\<lparr>migProgress := progressOf tot item s\<rparr>,
       processed := processed s @ [item\<lparr>status := Skipped\<rparr>],
       skipped := skipped s + 1,
       trace := trace s @ [Progress i (progressOf tot item s), ItemStatus i InProgress,
                           ItemStatus i Skipped]\<rparr>"
  by (simp add: processItem_def conflictSkip_def hasConflict_def notify_def Let_def)

lemma processItem_ok:
  "migStatus (mig s) \<noteq> Cancelled \<Longrightarrow> \<not> conflictSkip item \<Longrightarrow>
   attempt env i (remoteCall (targetSpaceId (mig s)) tc item (effectiveName env i item)) = Inr tid \<Longrightarrow>
   processItem env tc tot i item s =
     s\<lparr>mig := (mig s)\<lparr>migProgress := progressOf tot item s,
                      migStatus := (if cancelDuring env i then Cancelled else migStatus (mig s))\<rparr>,
       processed := processed s @
          [item\<lparr>targetId := (case tid of None \<Rightarrow> targetId item | Some t \<Rightarrow> Some t),
                status := Completed\<rparr>],
       completed := completed s + 1,
       trace := trace s @ Progress i (progressOf tot item s) # ItemStatus i InProgress #
                  callEvents i (remoteCall (targetSpaceId (mig s)) tc item (effectiveName env i item))
                  @ [ItemStatus i Completed],
       observed := observed s @
          [(mig s)\<lparr>migProgress := progressOf tot item s,
                   migStatus := (if cancelDuring env i then Cancelled else migStatus (mig s))\<rparr>]\<rparr>"
  by (auto simp add: processItem_def conflictSkip_def hasConflict_def notify_def suspend_def Let_def
      split: option.splits)

lemma processItem_err:
  "migStatus (mig s) \<noteq> Cancelled \<Longrightarrow> \<not> conflictSkip item \<Longrightarrow>
   attempt env i (remoteCall (targetSpaceId (mig s)) tc item (effectiveName env i item)) = Inl msg \<Longrightarrow>
   processItem env tc tot i item s =
     s\<lparr>mig := (mig s)\<lparr>migProgress := progressOf tot item s,
                      migStatus := (if cancelDuring env i then Cancelled else migStatus (mig s))\<rparr>,
       processed := processed s @ [item\<lparr>status := Failed, errorMessage := Some msg\<rparr>],
       failed := failed s + 1,
       trace := trace s @ Progress i (progressOf tot item s) # ItemStatus i InProgress #
                  callEvents i (remoteCall (targetSpaceId (mig s)) tc item (effectiveName env i item))
                  @ [ItemStatus i Failed],
       observed := observed s @
          [(mig s)\<lparr>migProgress := progressOf tot item s,
                   migStatus := (if cancelDuring env i then Cancelled else migStatus (mig s))\<rparr>]\<rparr>"
  by (auto simp add: processItem_def conflictSkip_def hasConflict_def notify_def suspend_def Let_def
      split: option.splits)

lemma processItem_cases:
  obtains (cancelled) "migStatus (mig s) = Cancelled"
  | (skip) "migStatus (mig s) \<noteq> Cancelled" "conflictSkip item"
  | (ok) tid where "migStatus (mig s) \<noteq> Cancelled" "\<not> conflictSkip item"
      "attempt env i (remoteCall (targetSpaceId (mig s)) tc item (effectiveName env i item)) = Inr tid"
  | (err) msg where "migStatus (mig s) \<noteq> Cancelled" "\<not> conflictSkip item"
      "attempt env i (remoteCall (targetSpaceId (mig s)) tc item (effectiveName env i item)) = Inl msg"
  by (cases "attempt env i (remoteCall (targetSpaceId (mig s)) tc item (effectiveName env i item))")
    blast+

lemmas processItem_eqs = processItem_cancelled processItem_skip processItem_ok processItem_err

lemma processItem_static:
  "migId (mig (processItem env tc tot i item s)) = migId (mig s)
   \<and> targetSpaceId (mig (processItem env tc tot i item s)) = targetSpaceId (mig s)"
  by (cases rule: processItem_cases [where s=s and item=item and env=env and i=i and tc=tc]) (simp_all add: processItem_eqs)

lemma processItems_static:
  "migId (mig (processItems env tc tot i items s)) = migId (mig s)
   \<and> targetSpaceId (mig (processItems env tc tot i items s)) = targetSpaceId (mig s)"
  by (induction items arbitrary: i s) (simp_all add: processItem_static)

lemma processItems_cancelled:
  "migStatus (mig s) = Cancelled \<Longrightarrow>
   processItems env tc tot i items s =
     s\<lparr>processed := processed s @ map (\<lambda>it. it\<lparr>status := Skipped\<rparr>) items,
       skipped := skipped s + length items,
       trace := trace s @ map (\<lambda>k. ItemStatus k Skipped) [i..<i + length items]\<rparr>"
proof (induction items arbitrary: i s)
  case Nil
  then show ?case by simp
next
  case (Cons item items)
  have "migStatus (mig (processItem env tc tot i item s)) = Cancelled"
    using Cons.prems by (simp add: processItem_cancelled)
  moreover have "[i..<Suc (i + length items)] = i # [Suc i..<Suc (i + length items)]"
    by (simp add: upt_conv_Cons del: upt_Suc)
  ultimately show ?case
    using Cons.IH [of "processItem env tc tot i item s" "Suc i"] Cons.prems
    by (simp add: processItem_cancelled del: upt_Suc)
qed

lemma processItems_append:
  "processItems env tc tot i (xs @ ys) s =
     processItems env tc tot (i + length xs) ys (processItems env tc tot i xs s)"
  by (induction xs arbitrary: i s) simp_all

lemma processItem_counted: "counted s \<Longrightarrow> counted (processItem env tc tot i item s)"
  by (cases rule: processItem_cases [where s=s and item=item and env=env and i=i and tc=tc])
    (simp_all add: processItem_eqs counted_def countStatus_def settled_def)

lemma processItems_counted: "counted s \<Longrightarrow> counted (processItems env tc tot i items s)"
  by (induction items arbitrary: i s) (simp_all add: processItem_counted)

lemma processItem_length:
  "length (processed (processItem env tc tot i item s)) = Suc (length (processed s))"
  by (cases rule: processItem_cases [where s=s and item=item and env=env and i=i and tc=tc]) (simp_all add: processItem_eqs)

lemma processItems_length:
  "length (processed (processItems env tc tot i items s)) = length (processed s) + length items"
  by (induction items arbitrary: i s) (simp_all add: processItem_length)

lemma settled_partition:
  "list_all settled xs \<Longrightarrow>
   countStatus Completed xs + countStatus Failed xs + countStatus Skipped xs = length xs"
  by (induction xs) (auto simp: countStatus_def settled_def)

lemma counted_sum:
  "counted s \<Longrightarrow> completed s + failed s + skipped s = length (processed s)"
  by (simp add: counted_def settled_partition)

lemma initState_counted: "counted (initState m)"
  by (simp add: counted_def initState_def countStatus_def)


section \<open>The whole run\<close>

lemma started_static [simp]:
  "targetSpaceId (started env m) = targetSpaceId m" "migId (started env m) = migId m"
  "migProgress (started env m) = migProgress m"
  "migStatus (started env m) = (if cancelAtResolve env then Cancelled else Running)"
  by (simp_all add: started_def Let_def)

lemma executeMigration_Inr:
  assumes "executeMigration env m items = Inr s"
  shows "\<exists>tc. getDataFilesConnectionId (client env) (targetSpaceId m) = Inr tc
    \<and> s = finish (length items)
               (processItems env tc (length items) 0 items (initState (started env m)))
    \<and> (\<forall>k. stateBefore env m items k =
               processItems env tc (length items) 0 (take k items) (initState (started env m)))"
  using assms
  by (auto simp: executeMigration_def stateBefore_def Let_def split: sum.splits)

lemma executeMigration_ends:
  "(\<exists>s. executeMigration env m items = Inr s)
     \<longleftrightarrow> (\<exists>tc. getDataFilesConnectionId (client env) (targetSpaceId m) = Inr tc)"
  by (cases "getDataFilesConnectionId (client env) (targetSpaceId m)")
    (simp_all add: executeMigration_def Let_def)

lemma finish_fields [simp]:
  "processed (finish n s) = processed s" "trace (finish n s) = trace s"
  "observed (finish n s) = observed s" "completed (finish n s) = completed s"
  "failed (finish n s) = failed s" "skipped (finish n s) = skipped s"
  "migStatus (mig (finish n s)) = (if failed s = n then MigFailed else MigCompleted)"
  "migId (mig (finish n s)) = migId (mig s)"
  "migProgress (mig (finish n s)) =
     \<lparr>p_migrationId = None, p_total = n, p_completed = completed s, p_failed = failed s,
      p_skipped = skipped s, p_percentage = Some 100, p_currentItem = None\<rparr>"
  by (simp_all add: finish_def)

lemma run_split:
  assumes "k \<le> length items"
  shows "processItems env tc n 0 items s0 =
           processItems env tc n k (drop k items) (processItems env tc n 0 (take k items) s0)"
proof -
  have len: "0 + length (take k items) = k"
    using assms by simp
  have "processItems env tc n 0 (take k items @ drop k items) s0 =
          processItems env tc n k (drop k items) (processItems env tc n 0 (take k items) s0)"
    using processItems_append [of env tc n 0 "take k items" "drop k items" s0]
    unfolding len .
  then show ?thesis
    by (simp only: append_take_drop_id)
qed

section \<open>Evaluating the worked scenario\<close>

lemmas ex_defs = exEnv_def exEnvCancel_def exRemote_def exMigration_def exItems_def exItem_def

lemmas run_defs = executeMigration_def stateBefore_def getDataFilesConnectionId_def started_def
  initState_def finish_def processItem_def notify_def suspend_def progressOf_def
  hasConflict_def effectiveName_def remoteCall_def attempt_def callEvents_def Let_def

lemma exEnv_resolves:
  "executeMigration exEnv m items = Inr (projr (executeMigration exEnv m items))"
  "executeMigration exEnvCancel m items = Inr (projr (executeMigration exEnvCancel m items))"
  by (simp_all add: executeMigration_def getDataFilesConnectionId_def exEnvCancel_def exEnv_def
      exRemote_def Let_def)

section \<open>What a run leaves in its items\<close>

lemma countStatus_all: "countStatus st xs = length xs \<longleftrightarrow> (\<forall>x\<in>set xs. status x = st)"
proof (induction xs)
  case Nil
  then show ?case by (simp add: countStatus_def)
next
  case (Cons x xs)
  show ?case
  proof (cases "status x = st")
    case True
    with Cons show ?thesis by (simp add: countStatus_def)
  next
    case False
    have "length (filter (\<lambda>it. status it = st) xs) \<le> length xs"
      by (rule length_filter_le)
    then have "length (filter (\<lambda>it. status it = st) xs) \<noteq> Suc (length xs)"
      by arith
    with False show ?thesis by (simp add: countStatus_def)
  qed
qed

lemma processItem_processed:
  "\<exists>it. processed (processItem env tc tot i item s) = processed s @ [it]
     \<and> (conflictSkip item \<longrightarrow> status it = Skipped)
     \<and> name it = name item \<and> itemId it = itemId item"
  by (cases rule: processItem_cases [where s=s and item=item and env=env and i=i and tc=tc])
    (simp_all add: processItem_eqs)

lemma processItems_processed:
  "\<exists>ys. processed (processItems env tc tot i items s) = processed s @ ys
     \<and> length ys = length items
     \<and> (\<forall>k<length items. conflictSkip (items ! k) \<longrightarrow> status (ys ! k) = Skipped)
     \<and> map name ys = map name items \<and> map itemId ys = map itemId items"
proof (induction items arbitrary: i s)
  case Nil
  then show ?case by simp
next
  case (Cons item items)
  obtain it where it: "processed (processItem env tc tot i item s) = processed s @ [it]"
      "conflictSkip item \<longrightarrow> status it = Skipped" "name it = name item" "itemId it = itemId item"
    using processItem_processed [of env tc tot i item s] by blast
  obtain ys where ys:
      "processed (processItems env tc tot (Suc i) items (processItem env tc tot i item s))
         = processed (processItem env tc tot i item s) @ ys"
      "length ys = length items"
      "\<forall>k<length items. conflictSkip (items ! k) \<longrightarrow> status (ys ! k) = Skipped"
      "map name ys = map name items" "map itemId ys = map itemId items"
    using Cons.IH [of "Suc i" "processItem env tc tot i item s"] by blast
  have "\<forall>k<length (item # items). conflictSkip ((item # items) ! k) \<longrightarrow> status ((it # ys) ! k) = Skipped"
    using it(2) ys(3) by (auto simp: nth_Cons split: nat.splits)
  with it ys show ?case
    by (intro exI [of _ "it # ys"]) simp
qed

lemma run_processed:
  assumes "executeMigration env m items = Inr s"
  shows "length (processed s) = length items \<and> map name (processed s) = map name items
       \<and> map itemId (processed s) = map itemId items
       \<and> (\<forall>k<length items. conflictSkip (items ! k) \<longrightarrow> status (processed s ! k) = Skipped)
       \<and> counted s"
proof -
  from executeMigration_Inr [OF assms] obtain tc where
    s: "s = finish (length items)
              (processItems env tc (length items) 0 items (initState (started env m)))"
    by blast
  obtain ys where ys:
    "processed (processItems env tc (length items) 0 items (initState (started env m)))
       = processed (initState (started env m)) @ ys"
    "length ys = length items"
    "\<forall>k<length items. conflictSkip (items ! k) \<longrightarrow> status (ys ! k) = Skipped"
    "map name ys = map name items" "map itemId ys = map itemId items"
    using processItems_processed [of env tc "length items" 0 items "initState (started env m)"]
    by blast
  have "counted (processItems env tc (length items) 0 items (initState (started env m)))"
    by (simp add: processItems_counted initState_counted)
  then have "counted s"
    by (simp add: s counted_def)
  with ys show ?thesis
    by (simp add: s initState_def)
qed

section \<open>The events of a run\<close>

lemma callEvents_Remote [simp]: "Remote k c \<in> set (callEvents i call) \<longleftrightarrow> k = i \<and> call = Some c"
  by (cases call) (auto simp: callEvents_def)

lemma callEvents_Progress [simp]: "Progress k p \<notin> set (callEvents i call)"
  by (cases call) (auto simp: callEvents_def)

lemma callEvents_eventOk [simp]: "list_all (eventOk n) (callEvents i call)"
  by (cases call) (auto simp: callEvents_def eventOk_def)

lemma callEvents_index [simp]: "e \<in> set (callEvents i call) \<Longrightarrow> eventIndex e = i"
  by (cases call) (auto simp: callEvents_def)

lemma processItem_remote:
  "Remote k c \<in> set (trace (processItem env tc tot i item s)) \<Longrightarrow>
   Remote k c \<in> set (trace s) \<or>
   (k = i \<and> migStatus (mig s) \<noteq> Cancelled \<and> \<not> conflictSkip item \<and>
    remoteCall (targetSpaceId (mig s)) tc item (effectiveName env i item) = Some c)"
  by (cases rule: processItem_cases [where s=s and item=item and env=env and i=i and tc=tc])
    (auto simp add: processItem_eqs)

lemma processItems_remote:
  "Remote k c \<in> set (trace (processItems env tc tot i items s)) \<Longrightarrow>
   Remote k c \<in> set (trace s) \<or>
   (i \<le> k \<and> k < i + length items \<and> \<not> conflictSkip (items ! (k - i)) \<and>
    remoteCall (targetSpaceId (mig s)) tc (items ! (k - i)) (effectiveName env k (items ! (k - i)))
      = Some c)"
proof (induction items arbitrary: i s)
  case Nil
  then show ?case by simp
next
  case (Cons item items)
  from Cons.IH [of "Suc i" "processItem env tc tot i item s"] Cons.prems
  consider "Remote k c \<in> set (trace (processItem env tc tot i item s))"
    | "Suc i \<le> k" "k < Suc i + length items" "\<not> conflictSkip (items ! (k - Suc i))"
      "remoteCall (targetSpaceId (mig s)) tc (items ! (k - Suc i))
         (effectiveName env k (items ! (k - Suc i))) = Some c"
    by (auto simp: processItem_static)
  then show ?case
  proof cases
    case 1
    from processItem_remote [OF this] show ?thesis by auto
  next
    case 2
    then have "(item # items) ! (k - i) = items ! (k - Suc i)"
      by (simp add: nth_Cons')
    with 2 show ?thesis by auto
  qed
qed

lemma run_remote:
  assumes "executeMigration env m items = Inr s" and "Remote k c \<in> set (trace s)"
  shows "k < length items \<and> \<not> conflictSkip (items ! k)
       \<and> (\<exists>tc. remoteCall (targetSpaceId m) tc (items ! k) (effectiveName env k (items ! k)) = Some c)"
proof -
  from executeMigration_Inr [OF assms(1)] obtain tc where
    s: "s = finish (length items)
              (processItems env tc (length items) 0 items (initState (started env m)))"
    by blast
  from assms(2) have "Remote k c \<in> set (trace
      (processItems env tc (length items) 0 items (initState (started env m))))"
    by (simp add: s)
  from processItems_remote [OF this] show ?thesis
    by (auto simp: initState_def)
qed

lemma processItem_runInv:
  "runInv n s \<Longrightarrow> completed s + failed s + skipped s \<le> n \<Longrightarrow>
   runInv n (processItem env tc n i item s)"
  by (cases rule: processItem_cases [where s=s and item=item and env=env and i=i and tc=tc])
    (simp_all add: processItem_eqs runInv_def snapshotOk_def eventOk_def progressOk_def
      progressSum_def progressOf_def)

lemma processItems_runInv:
  "runInv n s \<Longrightarrow> counted s \<Longrightarrow> length (processed s) + length items \<le> n \<Longrightarrow>
   runInv n (processItems env tc n i items s)"
proof (induction items arbitrary: i s)
  case Nil
  then show ?case by simp
next
  case (Cons item items)
  have "runInv n (processItem env tc n i item s)"
    using Cons.prems by (intro processItem_runInv) (simp_all add: counted_sum)
  moreover have "counted (processItem env tc n i item s)"
    using Cons.prems by (simp add: processItem_counted)
  ultimately show ?case
    using Cons.IH [of "processItem env tc n i item s" "Suc i"] Cons.prems
    by (simp add: processItem_length)
qed

lemma js_percentage_23_40: "js_percentage 23 40 = Some 57"
  by code_simp

lemma js_percentage_samples:
  "js_percentage 0 40 = Some 0" "js_percentage 40 40 = Some 100" "js_percentage 1 8 = Some 13"
  "js_percentage 1 3 = Some 33" "js_percentage 2 3 = Some 67" "js_percentage 29 200 = Some 14"
  "js_percentage 5 0 = None"
  by code_simp+

lemma round_23_40: "round (100 * 23 / 40 :: rat) = (58::int)"
  by (simp add: round_def)

lemma processItem_trace:
  "\<exists>more. trace (processItem env tc tot i item s) = trace s @ more
     \<and> (\<forall>e\<in>set more. eventIndex e = i)
     \<and> (migStatus (mig s) \<noteq> Cancelled \<longrightarrow>
          (\<exists>rest. more = Progress i (progressOf tot item s) # rest))"
  by (cases rule: processItem_cases [where s=s and item=item and env=env and i=i and tc=tc])
    (auto simp add: processItem_eqs)

lemma processItems_trace:
  "\<exists>more. trace (processItems env tc tot i items s) = trace s @ more
     \<and> (\<forall>e\<in>set more. i \<le> eventIndex e \<and> eventIndex e < i + length items)"
proof (induction items arbitrary: i s)
  case Nil
  then show ?case by simp
next
  case (Cons item items)
  obtain m1 where m1: "trace (processItem env tc tot i item s) = trace s @ m1"
      "\<forall>e\<in>set m1. eventIndex e = i"
    using processItem_trace [of env tc tot i item s] by blast
  obtain m2 where m2:
      "trace (processItems env tc tot (Suc i) items (processItem env tc tot i item s))
         = trace (processItem env tc tot i item s) @ m2"
      "\<forall>e\<in>set m2. Suc i \<le> eventIndex e \<and> eventIndex e < Suc i + length items"
    using Cons.IH [of "Suc i" "processItem env tc tot i item s"] by blast
  have "\<forall>e\<in>set (m1 @ m2). i \<le> eventIndex e \<and> eventIndex e < i + length (item # items)"
    using m1(2) m2(2) by auto
  with m1(1) m2(1) show ?case
    by (intro exI [of _ "m1 @ m2"]) simp
qed

lemma notification_at:
  assumes "executeMigration env m items = Inr s"
    and "k < length items"
    and "migStatus (mig (stateBefore env m items k)) \<noteq> Cancelled"
  shows "(\<exists>rest. trace s = trace (stateBefore env m items k)
            @ Progress k (progressOf (length items) (items ! k) (stateBefore env m items k)) # rest)
       \<and> (\<forall>e\<in>set (trace (stateBefore env m items k)). eventIndex e < k)
       \<and> processed (stateBefore env m items k) = take k (processed s)
       \<and> counted (stateBefore env m items k)
       \<and> migId (mig (stateBefore env m items k)) = migId m"
proof -
  from executeMigration_Inr [OF assms(1)] obtain tc where
    s: "s = finish (length items)
              (processItems env tc (length items) 0 items (initState (started env m)))"
    and sb: "\<And>j. stateBefore env m items j =
               processItems env tc (length items) 0 (take j items) (initState (started env m))"
    by blast
  let ?n = "length items"
  let ?sk = "stateBefore env m items k"
  let ?s1 = "processItem env tc ?n k (items ! k) ?sk"
  have dr: "drop k items = items ! k # drop (Suc k) items"
    using assms(2) by (simp add: Cons_nth_drop_Suc)
  have "processItems env tc ?n 0 items (initState (started env m)) =
          processItems env tc ?n k (drop k items) ?sk"
    using run_split [of k items env tc ?n "initState (started env m)"] assms(2) by (simp add: sb)
  then have loop: "processItems env tc ?n 0 items (initState (started env m)) =
          processItems env tc ?n (Suc k) (drop (Suc k) items) ?s1"
    by (simp add: dr)
  obtain m1 where m1: "trace ?s1 = trace ?sk @ m1"
      "migStatus (mig ?sk) \<noteq> Cancelled \<longrightarrow> (\<exists>rest. m1 = Progress k (progressOf ?n (items ! k) ?sk) # rest)"
    using processItem_trace [of env tc ?n k "items ! k" ?sk] by blast
  from m1(2) assms(3) obtain r1 where r1: "m1 = Progress k (progressOf ?n (items ! k) ?sk) # r1"
    by blast
  obtain m2 where m2:
      "trace (processItems env tc ?n (Suc k) (drop (Suc k) items) ?s1) = trace ?s1 @ m2"
    using processItems_trace [of env tc ?n "Suc k" "drop (Suc k) items" ?s1] by blast
  have tr: "trace s = trace ?sk @ Progress k (progressOf ?n (items ! k) ?sk) # (r1 @ m2)"
    by (simp add: s loop m2 m1(1) r1)
  obtain m0 where m0: "trace ?sk = trace (initState (started env m)) @ m0"
      "\<forall>e\<in>set m0. 0 \<le> eventIndex e \<and> eventIndex e < 0 + length (take k items)"
    unfolding sb
    using processItems_trace [of env tc ?n 0 "take k items" "initState (started env m)"] by blast
  have before: "\<forall>e\<in>set (trace ?sk). eventIndex e < k"
    using m0 assms(2) by (simp add: initState_def)
  have lenk: "length (processed ?sk) = k"
    using assms(2) by (simp add: sb processItems_length initState_def)
  obtain ys where ys: "processed (processItems env tc ?n k (drop k items) ?sk) = processed ?sk @ ys"
    using processItems_processed [of env tc ?n k "drop k items" ?sk] by blast
  have "processed s = processed ?sk @ ys"
    using run_split [of k items env tc ?n "initState (started env m)"] assms(2) ys
    by (simp add: s sb)
  then have pk: "processed ?sk = take k (processed s)"
    using lenk by simp
  have ck: "counted ?sk"
    by (simp add: sb processItems_counted initState_counted)
  have idk: "migId (mig ?sk) = migId m"
    by (simp add: sb processItems_static initState_def)
  from tr have ex: "\<exists>rest. trace s = trace ?sk @ Progress k (progressOf ?n (items ! k) ?sk) # rest"
    by (rule exI)
  show ?thesis
    by (intro conjI) (fact ex before pk ck idk)+
qed

section \<open>The name a call carries\<close>

lemma remoteCall_name:
  "remoteCall ts tc item n = Some c \<Longrightarrow>
   callName c = (if itemType item = ''connection''
                 then (if n \<noteq> name item then Some n else None) else Some n)"
  by (auto simp: remoteCall_def split: if_splits)

lemma rename_differs: "nm @ ''_copy_'' @ dec t \<noteq> nm"
  by simp

lemma rename_inject: "nm @ ''_copy_'' @ dec t = nm @ ''_copy_'' @ dec t' \<Longrightarrow> t = t'"
  by (simp add: dec_inject)

section \<open>A run in which every call succeeds\<close>

lemma attempt_ok:
  "\<forall>c. \<exists>t. callResult env i c = Inr t \<Longrightarrow> \<exists>tid. attempt env i call = Inr tid"
proof (cases call)
  case None
  then show ?thesis by (simp add: attempt_def)
next
  case (Some c)
  assume "\<forall>c. \<exists>t. callResult env i c = Inr t"
  then obtain t where "callResult env i c = Inr t" by blast
  with Some show ?thesis by (simp add: attempt_def)
qed

lemma all_completed:
  assumes "\<forall>i. \<not> cancelDuring env i" and "\<forall>i c. \<exists>t. callResult env i c = Inr t"
    and "\<forall>it\<in>set items. \<not> hasConflict it" and "migStatus (mig s) \<noteq> Cancelled"
  shows "completed (processItems env tc tot i items s) = completed s + length items
       \<and> failed (processItems env tc tot i items s) = failed s
       \<and> skipped (processItems env tc tot i items s) = skipped s
       \<and> migStatus (mig (processItems env tc tot i items s)) \<noteq> Cancelled"
  using assms(3,4)
proof (induction items arbitrary: i s)
  case Nil
  then show ?case by simp
next
  case (Cons item items)
  let ?s1 = "processItem env tc tot i item s"
  have ns: "\<not> conflictSkip item"
    using Cons.prems(1) by (simp add: conflictSkip_def)
  from assms(2) have "\<forall>c. \<exists>t. callResult env i c = Inr t" by simp
  from attempt_ok [OF this] obtain tid where
    "attempt env i (remoteCall (targetSpaceId (mig s)) tc item (effectiveName env i item)) = Inr tid"
    by blast
  from processItem_ok [OF Cons.prems(2) ns this, of tot]
  have s1: "completed ?s1 = completed s + 1" "failed ?s1 = failed s" "skipped ?s1 = skipped s"
    "migStatus (mig ?s1) \<noteq> Cancelled"
    using assms(1) Cons.prems(2) by simp_all
  from Cons.IH [of ?s1 "Suc i"] Cons.prems(1) s1 show ?case
    by simp
qed

lemma initState_fields [simp]:
  "mig (initState m) = m" "processed (initState m) = []" "completed (initState m) = 0"
  "failed (initState m) = 0" "skipped (initState m) = 0" "trace (initState m) = []"
  "observed (initState m) = [m]"
  by (simp_all add: initState_def)

lemma exManyFiles_before:
  "completed (stateBefore exEnv exManyMigration exManyFiles 23) = 23
   \<and> failed (stateBefore exEnv exManyMigration exManyFiles 23) = 0
   \<and> skipped (stateBefore exEnv exManyMigration exManyFiles 23) = 0
   \<and> migStatus (mig (stateBefore exEnv exManyMigration exManyFiles 23)) \<noteq> Cancelled"
proof -
  have sb: "stateBefore exEnv exManyMigration exManyFiles 23 =
      processItems exEnv (Some ''dc-T'') (length exManyFiles) 0 (take 23 exManyFiles)
        (initState (started exEnv exManyMigration))"
    by (simp add: stateBefore_def getDataFilesConnectionId_def exEnv_def exRemote_def
        exManyMigration_def exMigration_def started_def)
  have a1: "\<forall>i. \<not> cancelDuring exEnv i" by (simp add: exEnv_def)
  have a2: "\<forall>i c. \<exists>t. callResult exEnv i c = Inr t" by (simp add: exEnv_def)
  have a3: "\<forall>it\<in>set (take 23 exManyFiles). \<not> hasConflict it"
    by (auto simp: exManyFiles_def exItem_def hasConflict_def dest: in_set_takeD)
  have a4: "migStatus (mig (initState (started exEnv exManyMigration))) \<noteq> Cancelled"
    by (simp add: exEnv_def)
  have len: "length (take 23 exManyFiles) = 23"
    by (simp add: exManyFiles_def)
  from all_completed [OF a1 a2 a3 a4, of "Some ''dc-T''" "length exManyFiles" 0]
  show ?thesis
    unfolding sb len by simp
qed

lemma exManyFiles_notification:
  "\<exists>rest. trace (projr (executeMigration exEnv exManyMigration exManyFiles)) =
      trace (stateBefore exEnv exManyMigration exManyFiles 23) @
      Progress 23 \<lparr>p_migrationId = Some ''id-0'', p_total = 40, p_completed = 23, p_failed = 0,
                   p_skipped = 0, p_percentage = Some 57, p_currentItem = Some ''report.csv''\<rparr> # rest"
proof -
  have h2: "23 < length exManyFiles" by (simp add: exManyFiles_def)
  have h3: "migStatus (mig (stateBefore exEnv exManyMigration exManyFiles 23)) \<noteq> Cancelled"
    using exManyFiles_before by simp
  have id: "migId (mig (stateBefore exEnv exManyMigration exManyFiles 23)) = ''id-0''"
    using notification_at [OF exEnv_resolves(1) h2 h3]
    by (simp add: exManyMigration_def exMigration_def)
  have "progressOf (length exManyFiles) (exManyFiles ! 23) (stateBefore exEnv exManyMigration exManyFiles 23)
      = \<lparr>p_migrationId = Some ''id-0'', p_total = 40, p_completed = 23, p_failed = 0,
                   p_skipped = 0, p_percentage = Some 57, p_currentItem = Some ''report.csv''\<rparr>"
    using exManyFiles_before id
    by (simp add: progressOf_def js_percentage_23_40 exManyFiles_def exItem_def)
  with notification_at [OF exEnv_resolves(1) h2 h3] show ?thesis
    by simp
qed

lemma exRename_call:
  "Remote 0 (DuplicateConnection ''c-1'' ''T'' (Some ''DB1_copy_1700000000000''))
     \<in> set (trace (projr (executeMigration exEnv (exMigration\<lparr>migId := mid\<rparr>) (exItems ''rename''))))"
  by (simp add: ex_defs run_defs digit_def)

section \<open>The store under start and cancel requests\<close>

lemma executeMigration_migId:
  "executeMigration env m items = Inr s \<Longrightarrow> migId (mig s) = migId m"
  "executeMigration env m items = Inl (e, m') \<Longrightarrow> m' = started env m"
  by (auto simp: executeMigration_def Let_def processItems_static split: sum.splits)

lemma startMigration_rejected:
  "migrations st mid = Some m \<Longrightarrow> migStatus m \<noteq> Created \<Longrightarrow>
   startMigration env mid st = (Error 400 ''Already started'', st)"
  by (simp add: startMigration_def)

lemma startMigration_other:
  assumes "storeOk st" and "k \<noteq> mid"
  shows "migrations (snd (startMigration env k st)) mid = migrations st mid
       \<and> migrationItems (snd (startMigration env k st)) mid = migrationItems st mid"
proof (cases "migrations st k")
  case None
  then show ?thesis by (simp add: startMigration_def)
next
  case (Some mk)
  with assms(1) have id: "migId mk = k" by (simp add: storeOk_def)
  show ?thesis
  proof (cases "migStatus mk = Created")
    case False
    with Some show ?thesis by (simp add: startMigration_def)
  next
    case True
    show ?thesis
    proof (cases "migrationItems st k")
      case None
      with Some True show ?thesis by (simp add: startMigration_def)
    next
      case (Some its)
      show ?thesis
      proof (cases "executeMigration env mk its")
        case (Inl a)
        obtain e m' where a: "a = (e, m')" by (cases a)
        with Inl have "m' = started env mk" by (simp add: executeMigration_migId)
        with a Inl Some \<open>migrations st k = Some mk\<close> True id assms(2) show ?thesis
          by (simp add: startMigration_def)
      next
        case (Inr s)
        then have "migId (mig s) = k" using id by (simp add: executeMigration_migId)
        with Inr Some \<open>migrations st k = Some mk\<close> True assms(2) show ?thesis
          by (simp add: startMigration_def)
      qed
    qed
  qed
qed

lemma startMigration_storeOk:
  assumes "storeOk st"
  shows "storeOk (snd (startMigration env k st))"
proof (cases "migrations st k")
  case None
  with assms show ?thesis by (simp add: startMigration_def)
next
  case (Some mk)
  with assms have id: "migId mk = k" by (simp add: storeOk_def)
  show ?thesis
  proof (cases "migStatus mk = Created")
    case False
    with Some assms show ?thesis by (simp add: startMigration_def)
  next
    case True
    show ?thesis
    proof (cases "migrationItems st k")
      case None
      with Some True assms show ?thesis by (simp add: startMigration_def)
    next
      case (Some its)
      show ?thesis
      proof (cases "executeMigration env mk its")
        case (Inl a)
        obtain e m' where a: "a = (e, m')" by (cases a)
        with Inl have "m' = started env mk" by (simp add: executeMigration_migId)
        with a Inl Some \<open>migrations st k = Some mk\<close> True id assms show ?thesis
          by (simp add: startMigration_def storeOk_def)
      next
        case (Inr s)
        then have "migId (mig s) = k" using id by (simp add: executeMigration_migId)
        with Inr Some \<open>migrations st k = Some mk\<close> True assms show ?thesis
          by (simp add: startMigration_def storeOk_def)
      qed
    qed
  qed
qed

lemma start_stuck:
  assumes "stuckAt mid items running st"
  shows "stuckAt mid items running (snd (startMigration env k st))"
proof (cases "k = mid")
  case True
  from assms obtain m where m: "migrations st mid = Some m" "migStatus m \<noteq> Created"
    by (auto simp: stuckAt_def split: option.splits)
  with True assms show ?thesis by (simp add: startMigration_rejected)
next
  case False
  from assms have ok: "storeOk st" by (simp add: stuckAt_def)
  from startMigration_other [OF ok False, of env] startMigration_storeOk [OF ok, of env k] assms
  show ?thesis by (simp add: stuckAt_def)
qed

lemma cancel_stuck:
  assumes "stuckAt mid items running st" and "running \<longrightarrow> k \<noteq> mid"
  shows "stuckAt mid items running (snd (cancelMigration k st))"
proof (cases "migrations st k")
  case None
  with assms show ?thesis by (simp add: cancelMigration_def)
next
  case (Some mk)
  have "storeOk (snd (cancelMigration k st))"
    using assms(1) Some by (auto simp: stuckAt_def storeOk_def cancelMigration_def Let_def)
  with assms Some show ?thesis
    by (auto simp: stuckAt_def cancelMigration_def Let_def split: option.splits)
qed

lemma serve_stuck:
  "stuckAt mid items running st \<Longrightarrow> (running \<longrightarrow> Cancel mid \<notin> set rs) \<Longrightarrow>
   stuckAt mid items running (serve rs st)"
proof (induction rs st rule: serve.induct)
  case (1 st)
  then show ?case by simp
next
  case (2 env k rs st)
  then show ?case by (simp add: start_stuck)
next
  case (3 k rs st)
  have "running \<longrightarrow> k \<noteq> mid"
    using "3.prems"(2) by auto
  from cancel_stuck [OF "3.prems"(1) this] "3.IH" "3.prems"(2) show ?case
    by simp
qed

lemma storeOk_update:
  "storeOk st \<Longrightarrow> migId m = k \<Longrightarrow> storeOk (st\<lparr>migrations := (migrations st)(k \<mapsto> m)\<rparr>)"
  by (simp add: storeOk_def)

lemma exStore_ok: "storeOk exStore"
  by (auto simp: storeOk_def exStore_def exMigration_def split: if_splits)

lemma exEnvDown_fails:
  "getDataFilesConnectionId (client exEnvDown) (targetSpaceId exMigration) = Inl ''timeout''"
  by (simp add: getDataFilesConnectionId_def exEnvDown_def exEnv_def exRemote_def)

section \<open>The creation handler, case by case\<close>

lemma createMigration_missing:
  "\<not> truthy (r_sourceSpaceId req) \<or> \<not> truthy (r_targetSpaceId req)
     \<or> r_items req = None \<or> r_items req = Some [] \<Longrightarrow>
   createMigration r uuids tenant req st = (Error 400 ''Missing required fields'', st)"
  by (auto simp: createMigration_def split: option.splits)

lemma truthy_Some: "truthy (Some x) \<longleftrightarrow> x \<noteq> []"
  by (simp add: truthy_def)

lemma createMigration_remote_error:
  assumes "r_sourceSpaceId req = Some src" "src \<noteq> []"
    and "r_targetSpaceId req = Some tgt" "tgt \<noteq> []"
    and "r_items req = Some items" "items \<noteq> []"
    and "getSpace r src = Inl e \<or> getSpace r tgt = Inl e
       \<or> checkConnectionConflicts r tgt
            (map c_name (filter (\<lambda>i. c_itemType i = ''connection'') items)) = Inl e
       \<or> checkFileConflicts r tgt
            (map c_name (filter (\<lambda>i. c_itemType i \<noteq> ''connection'') items)) = Inl e"
  shows "\<exists>e'. createMigration r uuids tenant req st = (Error 500 e', st)"
  using assms
  by (auto simp: createMigration_def truthy_Some Let_def split: sum.splits)

lemma createMigration_ok:
  assumes "r_sourceSpaceId req = Some src" "src \<noteq> []"
    and "r_targetSpaceId req = Some tgt" "tgt \<noteq> []"
    and "r_items req = Some items" "items \<noteq> []"
    and "getSpace r src = Inr sourceSpace" "getSpace r tgt = Inr targetSpace"
    and "checkConnectionConflicts r tgt
            (map c_name (filter (\<lambda>i. c_itemType i = ''connection'') items)) = Inr cc"
    and "checkFileConflicts r tgt
            (map c_name (filter (\<lambda>i. c_itemType i \<noteq> ''connection'') items)) = Inr fc"
  shows "createMigration r uuids tenant req st =
    (Json \<lparr>cr_migration =
             \<lparr>migId = uuids 0, tenantId = tenant, sourceSpaceId = src,
              sourceSpaceName = spaceName sourceSpace, targetSpaceId = tgt,
              targetSpaceName = spaceName targetSpace, migStatus = Created,
              options = (case r_options req of
                           None \<Rightarrow> \<lparr>mode = Some ''copy'', conflictStrategy = Some ''skip''\<rparr>
                         | Some opt \<Rightarrow> opt),
              migProgress = \<lparr>p_migrationId = None, p_total = length items, p_completed = 0,
                             p_failed = 0, p_skipped = 0, p_percentage = Some 0,
                             p_currentItem = None\<rparr>\<rparr>,
           cr_items = map (\<lambda>(k, item). makeItem (uuids (Suc k)) (uuids 0) (cc @ fc) (r_options req) item)
                        (enumerate 0 items),
           cr_conflicts = map (\<lambda>n. (n, NAME_EXISTS)) (cc @ fc)\<rparr>,
     st\<lparr>migrations := (migrations st)(uuids 0 \<mapsto>
             \<lparr>migId = uuids 0, tenantId = tenant, sourceSpaceId = src,
              sourceSpaceName = spaceName sourceSpace, targetSpaceId = tgt,
              targetSpaceName = spaceName targetSpace, migStatus = Created,
              options = (case r_options req of
                           None \<Rightarrow> \<lparr>mode = Some ''copy'', conflictStrategy = Some ''skip''\<rparr>
                         | Some opt \<Rightarrow> opt),
              migProgress = \<lparr>p_migrationId = None, p_total = length items, p_completed = 0,
                             p_failed = 0, p_skipped = 0, p_percentage = Some 0,
                             p_currentItem = None\<rparr>\<rparr>),
        migrationItems := (migrationItems st)(uuids 0 \<mapsto>
             map (\<lambda>(k, item). makeItem (uuids (Suc k)) (uuids 0) (cc @ fc) (r_options req) item)
                        (enumerate 0 items))\<rparr>)"
  using assms
  by (simp add: createMigration_def truthy_Some Let_def)

lemma made_items:
  "map name (map (\<lambda>(k, item). makeItem (f k) mid cs opts item) (enumerate n items)) = map c_name items
   \<and> map sourceId (map (\<lambda>(k, item). makeItem (f k) mid cs opts item) (enumerate n items))
       = map c_sourceId items
   \<and> map itemType (map (\<lambda>(k, item). makeItem (f k) mid cs opts item) (enumerate n items))
       = map c_itemType items
   \<and> map conflictType (map (\<lambda>(k, item). makeItem (f k) mid cs opts item) (enumerate n items))
       = map (\<lambda>c. if c_name c \<in> set cs then Some NAME_EXISTS else None) items
   \<and> list_all (\<lambda>it. status it = Pending)
        (map (\<lambda>(k, item). makeItem (f k) mid cs opts item) (enumerate n items))"
  by (induction items arbitrary: n) (simp_all add: makeItem_def)

lemmas create_defs = createMigration_def getSpace_def checkConnectionConflicts_def
  checkFileConflicts_def listConnections_def listDataFiles_def getDataFilesConnectionId_def
  truthy_def js_or_def makeItem_def strategy_def Let_def

lemmas create_ex_defs = exRemote_def exRemoteNoList_def exRequest_def exCandidates_def
  exClashRequest_def exUuids_def emptyStore_def digit_def

section \<open>The worked scenario, end to end\<close>

lemma emptyStore_ok: "storeOk emptyStore"
  by (simp add: storeOk_def emptyStore_def)

lemma createMigration_storeOk:
  assumes "storeOk st"
  shows "storeOk (snd (createMigration r uuids tenant req st))"
proof (cases "fst (createMigration r uuids tenant req st)")
  case (Error code msg)
  then have "snd (createMigration r uuids tenant req st) = st"
    by (auto simp: createMigration_def Let_def split: if_splits sum.splits)
  with assms show ?thesis by simp
next
  case (Json resp)
  then have "snd (createMigration r uuids tenant req st) =
      st\<lparr>migrations := (migrations st)(uuids 0 \<mapsto> cr_migration resp),
         migrationItems := (migrationItems st)(uuids 0 \<mapsto> cr_items resp)\<rparr>
      \<and> migId (cr_migration resp) = uuids 0"
    by (auto simp: createMigration_def Let_def split: if_splits sum.splits)
  with assms show ?thesis by (simp add: storeOk_def)
qed

lemma scenario_created:
  "createMigration exRemote exUuids ''tenant'' (exRequest ''skip'') emptyStore =
     (Json \<lparr>cr_migration = exMigration, cr_items = exItems ''skip'',
            cr_conflicts = [(''DB1'', NAME_EXISTS)]\<rparr>,
      exStore)"
  by (simp add: create_defs create_ex_defs exMigration_def exItems_def exItem_def exStore_def
      numeral_2_eq_2 [symmetric])

lemma scenario_skip_run:
  "map status (processed (projr (executeMigration exEnv exMigration (exItems ''skip''))))
     = [Skipped, Completed]
   \<and> migStatus (mig (projr (executeMigration exEnv exMigration (exItems ''skip'')))) = MigCompleted
   \<and> migProgress (mig (projr (executeMigration exEnv exMigration (exItems ''skip'')))) =
       \<lparr>p_migrationId = None, p_total = 2, p_completed = 1, p_failed = 0, p_skipped = 1,
        p_percentage = Some 100, p_currentItem = None\<rparr>"
  by (simp add: ex_defs run_defs)

lemma scenario_rename_run:
  "map status (processed (projr (executeMigration exEnv exMigration (exItems ''rename''))))
     = [Completed, Completed]
   \<and> migStatus (mig (projr (executeMigration exEnv exMigration (exItems ''rename'')))) = MigCompleted
   \<and> p_completed (migProgress (mig (projr (executeMigration exEnv exMigration (exItems ''rename''))))) = 2"
  by (simp add: ex_defs run_defs)

section \<open>The properties\<close>

subsection \<open>Conflict annotation and the two namespaces\<close>

text \<open>
  C1. The annotation does not keep the namespaces apart. The target space holds a
  connection DB1 and no file or folder of that name; a request selects the connection DB1
  and a file DB1. The two checks find one connection conflict and no file conflict, yet
  both created items carry the annotation: the file is annotated because of the
  connection's name.
\<close>

theorem conflict_annotation_ignores_kind:
  "checkConnectionConflicts exRemote ''T'' [''DB1''] = Inr [''DB1'']
   \<and> checkFileConflicts exRemote ''T'' [''DB1''] = Inr []
   \<and> (case fst (createMigration exRemote exUuids ''tenant'' exClashRequest emptyStore) of
         Json resp \<Rightarrow>
           map (\<lambda>it. (itemType it, name it, conflictType it, conflictResolution it)) (cr_items resp)
       | Error code msg \<Rightarrow> [])
     = [(''connection'', ''DB1'', Some NAME_EXISTS, Some ''skip''),
        (''file'', ''DB1'', Some NAME_EXISTS, Some ''skip'')]"
  by (simp add: create_defs create_ex_defs)

theorem conflict_annotation_ignores_kind_witness:
  "(truthy (r_sourceSpaceId exClashRequest) \<and> truthy (r_targetSpaceId exClashRequest)
      \<and> map_option (map c_itemType) (r_items exClashRequest) = Some [''connection'', ''file'']
      \<and> map_option (map c_name) (r_items exClashRequest) = Some [''DB1'', ''DB1''])
   \<and> (checkConnectionConflicts exRemote ''T'' [''DB1''] = Inr [''DB1'']
      \<and> checkFileConflicts exRemote ''T'' [''DB1''] = Inr []
      \<and> (case fst (createMigration exRemote exUuids ''tenant'' exClashRequest emptyStore) of
            Json resp \<Rightarrow>
              map (\<lambda>it. (itemType it, name it, conflictType it, conflictResolution it)) (cr_items resp)
          | Error code msg \<Rightarrow> [])
        = [(''connection'', ''DB1'', Some NAME_EXISTS, Some ''skip''),
           (''file'', ''DB1'', Some NAME_EXISTS, Some ''skip'')])"
proof -
  have v: "truthy (r_sourceSpaceId exClashRequest) \<and> truthy (r_targetSpaceId exClashRequest)
      \<and> map_option (map c_itemType) (r_items exClashRequest) = Some [''connection'', ''file'']
      \<and> map_option (map c_name) (r_items exClashRequest) = Some [''DB1'', ''DB1'']"
    by (simp add: exClashRequest_def truthy_def)
  show ?thesis
    by (rule conjI [OF v conflict_annotation_ignores_kind])
qed

subsection \<open>The final status of a run\<close>

text \<open>
  C2. In every run that ends, the final status of the migration is failed exactly when
  every item ended failed, and completed otherwise; in particular it is completed when
  some item ended completed, or when fewer items failed than there are items. The items
  the run leaves are the items it was given, in order.
\<close>

theorem final_status_failed_iff_all_failed:
  assumes "executeMigration env m items = Inr s"
  shows "(migStatus (mig s) = MigFailed \<longleftrightarrow> (\<forall>it\<in>set (processed s). status it = Failed))
       \<and> (migStatus (mig s) \<noteq> MigFailed \<longrightarrow> migStatus (mig s) = MigCompleted)
       \<and> ((\<exists>it\<in>set (processed s). status it = Completed) \<longrightarrow> migStatus (mig s) = MigCompleted)
       \<and> (failed s < length items \<longrightarrow> migStatus (mig s) = MigCompleted)
       \<and> failed s = countStatus Failed (processed s)
       \<and> length (processed s) = length items
       \<and> map itemId (processed s) = map itemId items"
proof -
  from executeMigration_Inr [OF assms] obtain tc where
    s: "s = finish (length items)
              (processItems env tc (length items) 0 items (initState (started env m)))"
    by blast
  from run_processed [OF assms] have len: "length (processed s) = length items"
    and ids: "map itemId (processed s) = map itemId items" and c: "counted s"
    by simp_all
  have st: "migStatus (mig s) = (if failed s = length items then MigFailed else MigCompleted)"
    by (simp add: s)
  have f: "failed s = countStatus Failed (processed s)"
    using c by (simp add: counted_def)
  have all: "failed s = length items \<longleftrightarrow> (\<forall>it\<in>set (processed s). status it = Failed)"
    using countStatus_all [of Failed "processed s"] by (simp add: f len)
  have "migStatus (mig s) = MigFailed \<longleftrightarrow> (\<forall>it\<in>set (processed s). status it = Failed)"
    using all by (simp add: st)
  moreover have "migStatus (mig s) \<noteq> MigFailed \<longrightarrow> migStatus (mig s) = MigCompleted"
    by (simp add: st)
  moreover have "(\<exists>it\<in>set (processed s). status it = Completed) \<longrightarrow> migStatus (mig s) = MigCompleted"
    using all by (auto simp: st)
  moreover have "failed s < length items \<longrightarrow> migStatus (mig s) = MigCompleted"
    by (simp add: st)
  ultimately show ?thesis
    using len ids f by simp
qed

theorem final_status_failed_iff_all_failed_witness:
  "executeMigration exEnv exMigration (exItems ''skip'')
     = Inr (projr (executeMigration exEnv exMigration (exItems ''skip'')))
   \<and> (\<exists>it\<in>set (processed (projr (executeMigration exEnv exMigration (exItems ''skip'')))).
         status it = Completed)
   \<and> migStatus (mig (projr (executeMigration exEnv exMigration (exItems ''skip'')))) = MigCompleted"
proof -
  have h2: "\<exists>it\<in>set (processed (projr (executeMigration exEnv exMigration (exItems ''skip'')))).
         status it = Completed"
    by (simp add: ex_defs run_defs)
  note r = final_status_failed_iff_all_failed [OF exEnv_resolves(1)]
  show ?thesis
    by (rule conjI [OF exEnv_resolves(1) conjI [OF h2
          r [THEN conjunct2, THEN conjunct2, THEN conjunct1, THEN mp, OF h2]]])
qed

subsection \<open>Cancellation during a run\<close>

text \<open>
  C3. In a run that ends, if the migration is found cancelled at the top of the iteration
  for position \<open>k\<close>, then the \<open>k\<close> items handled before keep the status the run gave
  them (each one of completed, failed, skipped), every item from position \<open>k\<close> on ends
  skipped, and from there on the run only writes those statuses: it sends no remote call
  and no progress notification.
\<close>

theorem cancellation_skips_remaining:
  assumes "executeMigration env m items = Inr s"
    and "k \<le> length items"
    and "migStatus (mig (stateBefore env m items k)) = Cancelled"
  shows "processed s = processed (stateBefore env m items k)
                         @ map (\<lambda>it. it\<lparr>status := Skipped\<rparr>) (drop k items)
       \<and> length (processed (stateBefore env m items k)) = k
       \<and> list_all settled (processed (stateBefore env m items k))
       \<and> trace s = trace (stateBefore env m items k)
                      @ map (\<lambda>j. ItemStatus j Skipped) [k..<length items]
       \<and> (\<forall>j c. Remote j c \<in> set (trace s) \<longrightarrow> Remote j c \<in> set (trace (stateBefore env m items k)))"
proof -
  from executeMigration_Inr [OF assms(1)] obtain tc where
    tc: "getDataFilesConnectionId (client env) (targetSpaceId m) = Inr tc"
    and s: "s = finish (length items)
              (processItems env tc (length items) 0 items (initState (started env m)))"
    and sb: "\<And>j. stateBefore env m items j =
               processItems env tc (length items) 0 (take j items) (initState (started env m))"
    by blast
  let ?sk = "stateBefore env m items k"
  have loop: "processItems env tc (length items) 0 items (initState (started env m)) =
              processItems env tc (length items) k (drop k items) ?sk"
    using run_split [OF assms(2)] by (simp add: sb)
  have rest: "processItems env tc (length items) k (drop k items) ?sk =
      ?sk\<lparr>processed := processed ?sk @ map (\<lambda>it. it\<lparr>status := Skipped\<rparr>) (drop k items),
          skipped := skipped ?sk + length (drop k items),
          trace := trace ?sk @ map (\<lambda>j. ItemStatus j Skipped) [k..<k + length (drop k items)]\<rparr>"
    using assms(3) by (rule processItems_cancelled)
  have len: "length (processed ?sk) = k"
    using assms(2) by (simp add: sb processItems_length initState_def min_def)
  have "counted ?sk"
    by (simp add: sb processItems_counted initState_counted)
  then have settled: "list_all settled (processed ?sk)"
    by (simp add: counted_def)
  have tr: "trace s = trace ?sk @ map (\<lambda>j. ItemStatus j Skipped) [k..<length items]"
    using assms(2) by (simp add: s loop rest)
  have pr: "processed s = processed ?sk @ map (\<lambda>it. it\<lparr>status := Skipped\<rparr>) (drop k items)"
    by (simp add: s loop rest)
  have "Remote j c \<in> set (trace ?sk)" if "Remote j c \<in> set (trace s)" for j c
  proof -
    from that have "Remote j c \<in> set (trace ?sk) \<or>
        Remote j c \<in> set (map (\<lambda>j. ItemStatus j Skipped) [k..<length items])"
      unfolding tr set_append by (rule UnE) simp_all
    then show ?thesis by auto
  qed
  then have rm: "\<forall>j c. Remote j c \<in> set (trace s) \<longrightarrow> Remote j c \<in> set (trace ?sk)"
    by simp
  show ?thesis
    by (intro conjI) (fact pr len settled tr rm)+
qed

theorem cancellation_skips_remaining_witness:
  "executeMigration exEnvCancel exMigration (exItems ''rename'')
     = Inr (projr (executeMigration exEnvCancel exMigration (exItems ''rename'')))
   \<and> (1::nat) \<le> length (exItems ''rename'')
   \<and> migStatus (mig (stateBefore exEnvCancel exMigration (exItems ''rename'') 1)) = Cancelled
   \<and> processed (projr (executeMigration exEnvCancel exMigration (exItems ''rename'')))
       = processed (stateBefore exEnvCancel exMigration (exItems ''rename'') 1)
           @ map (\<lambda>it. it\<lparr>status := Skipped\<rparr>) (drop 1 (exItems ''rename''))"
proof -
  have h2: "(1::nat) \<le> length (exItems ''rename'')"
    by (simp add: exItems_def)
  have h3: "migStatus (mig (stateBefore exEnvCancel exMigration (exItems ''rename'') 1)) = Cancelled"
    by (simp add: ex_defs run_defs)
  show ?thesis
    by (rule conjI [OF exEnv_resolves(2) conjI [OF h2 conjI [OF h3
          cancellation_skips_remaining [OF exEnv_resolves(2) h2 h3, THEN conjunct1]]]])
qed

subsection \<open>Conflicts resolved by skipping\<close>

text \<open>
  C4. In every run that ends, an item that carries a conflict annotation with the
  resolution skip ends skipped, and no remote call is ever sent for it.
\<close>

theorem conflict_skip_never_sent:
  assumes "executeMigration env m items = Inr s"
    and "k < length items"
    and "conflictType (items ! k) \<noteq> None"
    and "conflictResolution (items ! k) = Some ''skip''"
  shows "status (processed s ! k) = Skipped
       \<and> itemId (processed s ! k) = itemId (items ! k)
       \<and> (\<forall>c. Remote k c \<notin> set (trace s))"
proof -
  have skip: "conflictSkip (items ! k)"
    using assms(3,4) by (simp add: conflictSkip_def hasConflict_def)
  from run_processed [OF assms(1)] have len: "length (processed s) = length items"
    and ids: "map itemId (processed s) = map itemId items"
    and sk: "\<forall>j<length items. conflictSkip (items ! j) \<longrightarrow> status (processed s ! j) = Skipped"
    by simp_all
  have "status (processed s ! k) = Skipped"
    using sk assms(2) skip by simp
  moreover have "itemId (processed s ! k) = itemId (items ! k)"
    using nth_map [of k "processed s" itemId] nth_map [of k items itemId] assms(2) len ids
    by simp
  moreover have "\<forall>c. Remote k c \<notin> set (trace s)"
    using run_remote [OF assms(1)] skip by blast
  ultimately show ?thesis by simp
qed

theorem conflict_skip_never_sent_witness:
  "executeMigration exEnv exMigration (exItems ''skip'')
     = Inr (projr (executeMigration exEnv exMigration (exItems ''skip'')))
   \<and> (0::nat) < length (exItems ''skip'')
   \<and> conflictType (exItems ''skip'' ! 0) \<noteq> None
   \<and> conflictResolution (exItems ''skip'' ! 0) = Some ''skip''
   \<and> status (processed (projr (executeMigration exEnv exMigration (exItems ''skip''))) ! 0) = Skipped
   \<and> itemId (processed (projr (executeMigration exEnv exMigration (exItems ''skip''))) ! 0)
       = itemId (exItems ''skip'' ! 0)
   \<and> (\<forall>c. Remote 0 c \<notin> set (trace (projr (executeMigration exEnv exMigration (exItems ''skip'')))))"
proof -
  have h2: "(0::nat) < length (exItems ''skip'')"
    by (simp add: exItems_def)
  have h3: "conflictType (exItems ''skip'' ! 0) \<noteq> None"
    by (simp add: exItems_def exItem_def)
  have h4: "conflictResolution (exItems ''skip'' ! 0) = Some ''skip''"
    by (simp add: exItems_def exItem_def)
  show ?thesis
    by (rule conjI [OF exEnv_resolves(1) conjI [OF h2 conjI [OF h3 conjI [OF h4
          conflict_skip_never_sent [OF exEnv_resolves(1) h2 h3 h4]]]]])
qed

subsection \<open>Progress counts\<close>

text \<open>
  C5. For a migration whose stored progress starts within its total (as creation leaves
  it: total the number of items, all counts zero), at every point where a status poll can
  see the migration during a run, and in every progress notification, completed + failed
  + skipped is at most the total, which is the number of items; during the run the status
  is running or cancelled. When the run ends the status is completed or failed, the sum
  equals the total, and every item is in exactly one of completed, failed, skipped, the
  three counts being the numbers of such items.
\<close>

theorem progress_counts_bounded:
  assumes "executeMigration env m items = Inr s"
    and "p_total (migProgress m) = length items"
    and "progressSum (migProgress m) \<le> length items"
  shows "(\<forall>ob\<in>set (observed s).
            p_total (migProgress ob) = length items
          \<and> progressSum (migProgress ob) \<le> length items
          \<and> (migStatus ob = Running \<or> migStatus ob = Cancelled))
       \<and> (\<forall>k p. Progress k p \<in> set (trace s) \<longrightarrow>
            p_total p = length items \<and> progressSum p \<le> length items)
       \<and> (migStatus (mig s) = MigCompleted \<or> migStatus (mig s) = MigFailed)
       \<and> p_total (migProgress (mig s)) = length items
       \<and> progressSum (migProgress (mig s)) = length items
       \<and> list_all settled (processed s)
       \<and> p_completed (migProgress (mig s)) = countStatus Completed (processed s)
       \<and> p_failed (migProgress (mig s)) = countStatus Failed (processed s)
       \<and> p_skipped (migProgress (mig s)) = countStatus Skipped (processed s)"
proof -
  from executeMigration_Inr [OF assms(1)] obtain tc where
    s: "s = finish (length items)
              (processItems env tc (length items) 0 items (initState (started env m)))"
    by blast
  let ?n = "length items"
  let ?l = "processItems env tc ?n 0 items (initState (started env m))"
  have i0: "runInv ?n (initState (started env m))"
    using assms(2,3)
    by (simp add: runInv_def snapshotOk_def progressOk_def initState_def)
  have c0: "counted (initState (started env m))"
    by (rule initState_counted)
  have l0: "length (processed (initState (started env m))) + length items \<le> ?n"
    by (simp add: initState_def)
  have inv: "runInv ?n ?l"
    using i0 c0 l0 by (rule processItems_runInv)
  from run_processed [OF assms(1)] have len: "length (processed s) = ?n" and c: "counted s"
    by simp_all
  have obs: "\<forall>ob\<in>set (observed s). p_total (migProgress ob) = ?n
          \<and> progressSum (migProgress ob) \<le> ?n
          \<and> (migStatus ob = Running \<or> migStatus ob = Cancelled)"
    using inv by (simp add: s runInv_def snapshotOk_def progressOk_def list_all_iff)
  have ev: "\<forall>k p. Progress k p \<in> set (trace s) \<longrightarrow> p_total p = ?n \<and> progressSum p \<le> ?n"
  proof (intro allI impI)
    fix k p assume "Progress k p \<in> set (trace s)"
    with inv have "eventOk ?n (Progress k p)"
      by (simp add: s runInv_def list_all_iff)
    then show "p_total p = ?n \<and> progressSum p \<le> ?n"
      by (simp add: eventOk_def progressOk_def)
  qed
  have fin: "migStatus (mig s) = MigCompleted \<or> migStatus (mig s) = MigFailed"
    by (simp add: s)
  have tot: "p_total (migProgress (mig s)) = ?n"
    by (simp add: s)
  have cnt: "p_completed (migProgress (mig s)) = countStatus Completed (processed s)"
    "p_failed (migProgress (mig s)) = countStatus Failed (processed s)"
    "p_skipped (migProgress (mig s)) = countStatus Skipped (processed s)"
    "list_all settled (processed s)"
    using c by (simp_all add: s counted_def)
  have sum: "progressSum (migProgress (mig s)) = ?n"
    using cnt len by (simp add: progressSum_def settled_partition)
  show ?thesis
    by (intro conjI) (fact obs ev fin tot sum cnt)+
qed

theorem progress_counts_bounded_witness:
  "executeMigration exEnv exMigration (exItems ''skip'')
     = Inr (projr (executeMigration exEnv exMigration (exItems ''skip'')))
   \<and> p_total (migProgress exMigration) = length (exItems ''skip'')
   \<and> progressSum (migProgress exMigration) \<le> length (exItems ''skip'')
   \<and> progressSum (migProgress (mig (projr (executeMigration exEnv exMigration (exItems ''skip'')))))
       = length (exItems ''skip'')"
proof -
  have h2: "p_total (migProgress exMigration) = length (exItems ''skip'')"
    by (simp add: exMigration_def exItems_def)
  have h3: "progressSum (migProgress exMigration) \<le> length (exItems ''skip'')"
    by (simp add: exMigration_def exItems_def progressSum_def)
  show ?thesis
    by (rule conjI [OF exEnv_resolves(1) conjI [OF h2 conjI [OF h3
          progress_counts_bounded [OF exEnv_resolves(1) h2 h3,
            THEN conjunct2, THEN conjunct2, THEN conjunct2, THEN conjunct2, THEN conjunct1]]]])
qed

subsection \<open>Progress notifications\<close>

text \<open>
  C6. In every run that ends, for every item that is not skipped because the
  migration is found cancelled, the first event of the item's iteration is a progress
  notification: no event of that item comes before it. The notification carries the
  migration id, the total (the number of items), the completed, failed and skipped
  counters as they stand before the item, which count the settled statuses of the items
  before it, the item's name, and as percentage the value of
  \<^verbatim>\<open>Math.round((completed / total) * 100)\<close> in double arithmetic on those counts.
\<close>

theorem progress_before_each_item:
  assumes "executeMigration env m items = Inr s"
    and "k < length items"
    and "migStatus (mig (stateBefore env m items k)) \<noteq> Cancelled"
  shows "(\<exists>rest. trace s = trace (stateBefore env m items k) @
            Progress k \<lparr>p_migrationId = Some (migId m), p_total = length items,
                        p_completed = completed (stateBefore env m items k),
                        p_failed = failed (stateBefore env m items k),
                        p_skipped = skipped (stateBefore env m items k),
                        p_percentage =
                          js_percentage (completed (stateBefore env m items k)) (length items),
                        p_currentItem = Some (name (items ! k))\<rparr> # rest)
       \<and> (\<forall>e\<in>set (trace (stateBefore env m items k)). eventIndex e < k)
       \<and> completed (stateBefore env m items k) = countStatus Completed (take k (processed s))
       \<and> failed (stateBefore env m items k) = countStatus Failed (take k (processed s))
       \<and> skipped (stateBefore env m items k) = countStatus Skipped (take k (processed s))"
proof -
  note r = notification_at [OF assms]
  let ?sk = "stateBefore env m items k"
  from r have pk: "processed ?sk = take k (processed s)" and ck: "counted ?sk"
    and idk: "migId (mig ?sk) = migId m"
    by simp_all
  have "progressOf (length items) (items ! k) ?sk =
      \<lparr>p_migrationId = Some (migId m), p_total = length items,
       p_completed = completed ?sk, p_failed = failed ?sk, p_skipped = skipped ?sk,
       p_percentage = js_percentage (completed ?sk) (length items),
       p_currentItem = Some (name (items ! k))\<rparr>"
    by (simp add: progressOf_def idk)
  with r have ex: "\<exists>rest. trace s = trace ?sk @
            Progress k \<lparr>p_migrationId = Some (migId m), p_total = length items,
                        p_completed = completed ?sk, p_failed = failed ?sk,
                        p_skipped = skipped ?sk,
                        p_percentage = js_percentage (completed ?sk) (length items),
                        p_currentItem = Some (name (items ! k))\<rparr> # rest"
    by simp
  have before: "\<forall>e\<in>set (trace ?sk). eventIndex e < k"
    using r by simp
  have cnt: "completed ?sk = countStatus Completed (take k (processed s))"
    "failed ?sk = countStatus Failed (take k (processed s))"
    "skipped ?sk = countStatus Skipped (take k (processed s))"
    using ck by (simp_all add: counted_def pk)
  show ?thesis
    by (intro conjI) (fact ex before cnt)+
qed

theorem progress_before_each_item_witness:
  "executeMigration exEnv exMigration (exItems ''skip'')
     = Inr (projr (executeMigration exEnv exMigration (exItems ''skip'')))
   \<and> (1::nat) < length (exItems ''skip'')
   \<and> migStatus (mig (stateBefore exEnv exMigration (exItems ''skip'') 1)) \<noteq> Cancelled
   \<and> (\<exists>rest. trace (projr (executeMigration exEnv exMigration (exItems ''skip''))) =
          trace (stateBefore exEnv exMigration (exItems ''skip'') 1) @
            Progress 1 \<lparr>p_migrationId = Some (migId exMigration),
                        p_total = length (exItems ''skip''),
                        p_completed = completed (stateBefore exEnv exMigration (exItems ''skip'') 1),
                        p_failed = failed (stateBefore exEnv exMigration (exItems ''skip'') 1),
                        p_skipped = skipped (stateBefore exEnv exMigration (exItems ''skip'') 1),
                        p_percentage =
                          js_percentage (completed (stateBefore exEnv exMigration (exItems ''skip'') 1))
                            (length (exItems ''skip'')),
                        p_currentItem = Some (name (exItems ''skip'' ! 1))\<rparr> # rest)"
proof -
  have h2: "(1::nat) < length (exItems ''skip'')"
    by (simp add: exItems_def)
  have h3: "migStatus (mig (stateBefore exEnv exMigration (exItems ''skip'') 1)) \<noteq> Cancelled"
    by (simp add: ex_defs run_defs)
  show ?thesis
    by (rule conjI [OF exEnv_resolves(1) conjI [OF h2 conjI [OF h3
          progress_before_each_item [OF exEnv_resolves(1) h2 h3, THEN conjunct1]]]])
qed

text \<open>
  The percentage is not always the rounded exact quotient: with 23 of 40 items completed
  the double product is just below 57.5 and the notification says 57, while
  \<open>100 * 23 / 40 = 57.5\<close> rounds to 58.
\<close>

theorem notification_percentage_counterexample:
  "Progress 23 \<lparr>p_migrationId = Some ''id-0'', p_total = 40, p_completed = 23, p_failed = 0,
                p_skipped = 0, p_percentage = Some 57, p_currentItem = Some ''report.csv''\<rparr>
     \<in> set (trace (projr (executeMigration exEnv exManyMigration exManyFiles)))
   \<and> round (100 * 23 / 40 :: rat) = (58::int)"
proof -
  from exManyFiles_notification obtain rest where
    "trace (projr (executeMigration exEnv exManyMigration exManyFiles)) =
      trace (stateBefore exEnv exManyMigration exManyFiles 23) @
      Progress 23 \<lparr>p_migrationId = Some ''id-0'', p_total = 40, p_completed = 23, p_failed = 0,
                   p_skipped = 0, p_percentage = Some 57, p_currentItem = Some ''report.csv''\<rparr> # rest"
    by blast
  then have "Progress 23 \<lparr>p_migrationId = Some ''id-0'', p_total = 40, p_completed = 23, p_failed = 0,
                p_skipped = 0, p_percentage = Some 57, p_currentItem = Some ''report.csv''\<rparr>
     \<in> set (trace (projr (executeMigration exEnv exManyMigration exManyFiles)))"
    by simp
  then show ?thesis
    using round_23_40 by (rule conjI)
qed

subsection \<open>Names under the rename resolution\<close>

text \<open>
  C7. In every run that ends, a remote call sent for an item that carries a
  conflict annotation with the resolution rename carries the item's name followed by
  \<^verbatim>\<open>_copy_\<close> and the decimal clock reading taken for that item: a name that differs
  from the original, and from the name made at any other clock reading. A call sent for an
  item without conflict annotation uses the original name: a file or folder copy carries
  it, a connection duplicate carries no new name.
\<close>

theorem rename_name_passed:
  assumes "executeMigration env m items = Inr s"
    and "Remote k c \<in> set (trace s)"
  shows "k < length items
       \<and> (conflictType (items ! k) \<noteq> None \<and> conflictResolution (items ! k) = Some ''rename'' \<longrightarrow>
            callName c = Some (name (items ! k) @ ''_copy_'' @ dec (dateNow env k))
          \<and> callName c \<noteq> Some (name (items ! k))
          \<and> (\<forall>t. t \<noteq> dateNow env k \<longrightarrow>
                callName c \<noteq> Some (name (items ! k) @ ''_copy_'' @ dec t)))
       \<and> (conflictType (items ! k) = None \<longrightarrow>
            (itemType (items ! k) = ''connection'' \<longrightarrow> callName c = None)
          \<and> (itemType (items ! k) \<noteq> ''connection'' \<longrightarrow> callName c = Some (name (items ! k))))"
proof -
  from run_remote [OF assms] obtain tc where k: "k < length items"
    and rc: "remoteCall (targetSpaceId m) tc (items ! k) (effectiveName env k (items ! k)) = Some c"
    by blast
  note nm = remoteCall_name [OF rc]
  have ren: "conflictType (items ! k) \<noteq> None \<and> conflictResolution (items ! k) = Some ''rename'' \<longrightarrow>
            callName c = Some (name (items ! k) @ ''_copy_'' @ dec (dateNow env k))
          \<and> callName c \<noteq> Some (name (items ! k))
          \<and> (\<forall>t. t \<noteq> dateNow env k \<longrightarrow>
                callName c \<noteq> Some (name (items ! k) @ ''_copy_'' @ dec t))"
  proof
    assume "conflictType (items ! k) \<noteq> None \<and> conflictResolution (items ! k) = Some ''rename''"
    then have e: "effectiveName env k (items ! k)
        = name (items ! k) @ ''_copy_'' @ dec (dateNow env k)"
      by (simp add: effectiveName_def hasConflict_def)
    have c: "callName c = Some (name (items ! k) @ ''_copy_'' @ dec (dateNow env k))"
      using nm by (simp add: e)
    have d: "callName c \<noteq> Some (name (items ! k))"
      by (simp add: c)
    have "callName c \<noteq> Some (name (items ! k) @ ''_copy_'' @ dec t)" if "t \<noteq> dateNow env k" for t
    proof
      assume "callName c = Some (name (items ! k) @ ''_copy_'' @ dec t)"
      with c have "dec (dateNow env k) = dec t"
        by simp
      then have "dateNow env k = t"
        by (rule dec_inject)
      with that show False by simp
    qed
    then have "\<forall>t. t \<noteq> dateNow env k \<longrightarrow>
        callName c \<noteq> Some (name (items ! k) @ ''_copy_'' @ dec t)"
      by simp
    with c d show "callName c = Some (name (items ! k) @ ''_copy_'' @ dec (dateNow env k))
          \<and> callName c \<noteq> Some (name (items ! k))
          \<and> (\<forall>t. t \<noteq> dateNow env k \<longrightarrow>
                callName c \<noteq> Some (name (items ! k) @ ''_copy_'' @ dec t))"
      by (intro conjI)
  qed
  have orig: "conflictType (items ! k) = None \<longrightarrow>
            (itemType (items ! k) = ''connection'' \<longrightarrow> callName c = None)
          \<and> (itemType (items ! k) \<noteq> ''connection'' \<longrightarrow> callName c = Some (name (items ! k)))"
  proof
    assume "conflictType (items ! k) = None"
    then have "effectiveName env k (items ! k) = name (items ! k)"
      by (simp add: effectiveName_def hasConflict_def)
    with nm show "(itemType (items ! k) = ''connection'' \<longrightarrow> callName c = None)
          \<and> (itemType (items ! k) \<noteq> ''connection'' \<longrightarrow> callName c = Some (name (items ! k)))"
      by simp
  qed
  show ?thesis
    by (rule conjI [OF k conjI [OF ren orig]])
qed

theorem rename_name_passed_witness:
  "executeMigration exEnv exMigration (exItems ''rename'')
     = Inr (projr (executeMigration exEnv exMigration (exItems ''rename'')))
   \<and> Remote 0 (DuplicateConnection ''c-1'' ''T'' (Some ''DB1_copy_1700000000000''))
       \<in> set (trace (projr (executeMigration exEnv exMigration (exItems ''rename''))))
   \<and> (0::nat) < length (exItems ''rename'')"
proof -
  have h2: "Remote 0 (DuplicateConnection ''c-1'' ''T'' (Some ''DB1_copy_1700000000000''))
       \<in> set (trace (projr (executeMigration exEnv exMigration (exItems ''rename''))))"
    using exRename_call [of "''id-0''"] by (simp add: exMigration_def)
  show ?thesis
    by (rule conjI [OF exEnv_resolves(1) conjI [OF h2
          rename_name_passed [OF exEnv_resolves(1) h2, THEN conjunct1]]])
qed

text \<open>
  Two runs that read the same clock value for the item send the same name.
\<close>

theorem rename_same_clock_counterexample:
  "Remote 0 (DuplicateConnection ''c-1'' ''T'' (Some ''DB1_copy_1700000000000''))
     \<in> set (trace (projr (executeMigration exEnv exMigration (exItems ''rename''))))
   \<and> Remote 0 (DuplicateConnection ''c-1'' ''T'' (Some ''DB1_copy_1700000000000''))
     \<in> set (trace (projr (executeMigration exEnv (exMigration\<lparr>migId := ''id-9''\<rparr>)
                             (exItems ''rename''))))"
  using exRename_call [of "''id-0''"] exRename_call [of "''id-9''"]
  by (simp add: exMigration_def)

subsection \<open>Outcomes of creating a migration\<close>

text \<open>
  C8. Creating a migration answers 400 and leaves the store as it is when the
  source space id or the target space id is missing or empty, or the item list is missing
  or empty. With all three present it answers 500 and leaves the store as it is when
  resolving either space fails, and also when listing the target's connections or files
  for the conflict check fails. When all four remote steps succeed it stores, under a new
  id, a migration with status created and progress zero of the number of items, and one
  pending item per candidate, in order, and answers with them and the detected conflicts.
\<close>

theorem createMigration_outcomes:
  "(\<not> truthy (r_sourceSpaceId req) \<or> \<not> truthy (r_targetSpaceId req)
      \<or> r_items req = None \<or> r_items req = Some []
     \<longrightarrow> createMigration r uuids tenant req st = (Error 400 ''Missing required fields'', st))
   \<and> (r_sourceSpaceId req = Some src \<and> src \<noteq> [] \<and> r_targetSpaceId req = Some tgt \<and> tgt \<noteq> []
        \<and> r_items req = Some items \<and> items \<noteq> []
     \<longrightarrow> (getSpace r src = Inl e \<or> getSpace r tgt = Inl e
            \<or> checkConnectionConflicts r tgt
                 (map c_name (filter (\<lambda>i. c_itemType i = ''connection'') items)) = Inl e
            \<or> checkFileConflicts r tgt
                 (map c_name (filter (\<lambda>i. c_itemType i \<noteq> ''connection'') items)) = Inl e
          \<longrightarrow> (\<exists>e'. createMigration r uuids tenant req st = (Error 500 e', st)))
       \<and> (getSpace r src = Inr sourceSpace \<and> getSpace r tgt = Inr targetSpace
            \<and> checkConnectionConflicts r tgt
                 (map c_name (filter (\<lambda>i. c_itemType i = ''connection'') items)) = Inr cc
            \<and> checkFileConflicts r tgt
                 (map c_name (filter (\<lambda>i. c_itemType i \<noteq> ''connection'') items)) = Inr fc
          \<longrightarrow> (\<exists>resp. createMigration r uuids tenant req st =
                  (Json resp,
                   st\<lparr>migrations := (migrations st)(uuids 0 \<mapsto> cr_migration resp),
                      migrationItems := (migrationItems st)(uuids 0 \<mapsto> cr_items resp)\<rparr>)
                \<and> migId (cr_migration resp) = uuids 0
                \<and> migStatus (cr_migration resp) = Created
                \<and> sourceSpaceId (cr_migration resp) = src
                \<and> targetSpaceId (cr_migration resp) = tgt
                \<and> p_total (migProgress (cr_migration resp)) = length items
                \<and> progressSum (migProgress (cr_migration resp)) = 0
                \<and> length (cr_items resp) = length items
                \<and> map name (cr_items resp) = map c_name items
                \<and> map sourceId (cr_items resp) = map c_sourceId items
                \<and> map itemType (cr_items resp) = map c_itemType items
                \<and> list_all (\<lambda>it. status it = Pending) (cr_items resp)
                \<and> cr_conflicts resp = map (\<lambda>n. (n, NAME_EXISTS)) (cc @ fc))))"
proof (intro conjI impI)
  assume "\<not> truthy (r_sourceSpaceId req) \<or> \<not> truthy (r_targetSpaceId req)
      \<or> r_items req = None \<or> r_items req = Some []"
  then show "createMigration r uuids tenant req st = (Error 400 ''Missing required fields'', st)"
    by (rule createMigration_missing)
next
  assume v: "r_sourceSpaceId req = Some src \<and> src \<noteq> [] \<and> r_targetSpaceId req = Some tgt \<and> tgt \<noteq> []
        \<and> r_items req = Some items \<and> items \<noteq> []"
    and f: "getSpace r src = Inl e \<or> getSpace r tgt = Inl e
            \<or> checkConnectionConflicts r tgt
                 (map c_name (filter (\<lambda>i. c_itemType i = ''connection'') items)) = Inl e
            \<or> checkFileConflicts r tgt
                 (map c_name (filter (\<lambda>i. c_itemType i \<noteq> ''connection'') items)) = Inl e"
  from v have "r_sourceSpaceId req = Some src" "src \<noteq> []" "r_targetSpaceId req = Some tgt"
    "tgt \<noteq> []" "r_items req = Some items" "items \<noteq> []"
    by simp_all
  then show "\<exists>e'. createMigration r uuids tenant req st = (Error 500 e', st)"
    using f by (rule createMigration_remote_error)
next
  assume v: "r_sourceSpaceId req = Some src \<and> src \<noteq> [] \<and> r_targetSpaceId req = Some tgt \<and> tgt \<noteq> []
        \<and> r_items req = Some items \<and> items \<noteq> []"
    and g: "getSpace r src = Inr sourceSpace \<and> getSpace r tgt = Inr targetSpace
            \<and> checkConnectionConflicts r tgt
                 (map c_name (filter (\<lambda>i. c_itemType i = ''connection'') items)) = Inr cc
            \<and> checkFileConflicts r tgt
                 (map c_name (filter (\<lambda>i. c_itemType i \<noteq> ''connection'') items)) = Inr fc"
  from v have v': "r_sourceSpaceId req = Some src" "src \<noteq> []" "r_targetSpaceId req = Some tgt"
    "tgt \<noteq> []" "r_items req = Some items" "items \<noteq> []"
    by simp_all
  from g have g': "getSpace r src = Inr sourceSpace" "getSpace r tgt = Inr targetSpace"
    "checkConnectionConflicts r tgt
       (map c_name (filter (\<lambda>i. c_itemType i = ''connection'') items)) = Inr cc"
    "checkFileConflicts r tgt
       (map c_name (filter (\<lambda>i. c_itemType i \<noteq> ''connection'') items)) = Inr fc"
    by simp_all
  note eq = createMigration_ok [OF v' g', of uuids tenant st]
  note mk = made_items [of "\<lambda>k. uuids (Suc k)" "uuids 0" "cc @ fc" "r_options req" 0 items]
  show "\<exists>resp. createMigration r uuids tenant req st =
                  (Json resp,
                   st\<lparr>migrations := (migrations st)(uuids 0 \<mapsto> cr_migration resp),
                      migrationItems := (migrationItems st)(uuids 0 \<mapsto> cr_items resp)\<rparr>)
                \<and> migId (cr_migration resp) = uuids 0
                \<and> migStatus (cr_migration resp) = Created
                \<and> sourceSpaceId (cr_migration resp) = src
                \<and> targetSpaceId (cr_migration resp) = tgt
                \<and> p_total (migProgress (cr_migration resp)) = length items
                \<and> progressSum (migProgress (cr_migration resp)) = 0
                \<and> length (cr_items resp) = length items
                \<and> map name (cr_items resp) = map c_name items
                \<and> map sourceId (cr_items resp) = map c_sourceId items
                \<and> map itemType (cr_items resp) = map c_itemType items
                \<and> list_all (\<lambda>it. status it = Pending) (cr_items resp)
                \<and> cr_conflicts resp = map (\<lambda>n. (n, NAME_EXISTS)) (cc @ fc)"
    unfolding eq using mk
    by (intro exI [of _ "\<lparr>cr_migration =
             \<lparr>migId = uuids 0, tenantId = tenant, sourceSpaceId = src,
              sourceSpaceName = spaceName sourceSpace, targetSpaceId = tgt,
              targetSpaceName = spaceName targetSpace, migStatus = Created,
              options = (case r_options req of
                           None \<Rightarrow> \<lparr>mode = Some ''copy'', conflictStrategy = Some ''skip''\<rparr>
                         | Some opt \<Rightarrow> opt),
              migProgress = \<lparr>p_migrationId = None, p_total = length items, p_completed = 0,
                             p_failed = 0, p_skipped = 0, p_percentage = Some 0,
                             p_currentItem = None\<rparr>\<rparr>,
           cr_items = map (\<lambda>(k, item). makeItem (uuids (Suc k)) (uuids 0) (cc @ fc) (r_options req) item)
                        (enumerate 0 items),
           cr_conflicts = map (\<lambda>n. (n, NAME_EXISTS)) (cc @ fc)\<rparr>"])
      (simp add: progressSum_def)
qed

theorem createMigration_outcomes_witness:
  "(r_sourceSpaceId (exRequest ''skip'') = Some ''S'' \<and> ''S'' \<noteq> []
      \<and> r_targetSpaceId (exRequest ''skip'') = Some ''T'' \<and> ''T'' \<noteq> []
      \<and> r_items (exRequest ''skip'') = Some exCandidates \<and> exCandidates \<noteq> [])
   \<and> (getSpace exRemote ''S'' = Inr \<lparr>spaceName = ''Space S''\<rparr>
      \<and> getSpace exRemote ''T'' = Inr \<lparr>spaceName = ''Space T''\<rparr>
      \<and> checkConnectionConflicts exRemote ''T''
           (map c_name (filter (\<lambda>i. c_itemType i = ''connection'') exCandidates)) = Inr [''DB1'']
      \<and> checkFileConflicts exRemote ''T''
           (map c_name (filter (\<lambda>i. c_itemType i \<noteq> ''connection'') exCandidates)) = Inr [])
   \<and> (\<exists>resp. createMigration exRemote exUuids ''tenant'' (exRequest ''skip'') emptyStore =
          (Json resp,
           emptyStore\<lparr>migrations := (migrations emptyStore)(exUuids 0 \<mapsto> cr_migration resp),
              migrationItems := (migrationItems emptyStore)(exUuids 0 \<mapsto> cr_items resp)\<rparr>)
        \<and> migId (cr_migration resp) = exUuids 0
        \<and> migStatus (cr_migration resp) = Created
        \<and> sourceSpaceId (cr_migration resp) = ''S''
        \<and> targetSpaceId (cr_migration resp) = ''T''
        \<and> p_total (migProgress (cr_migration resp)) = length exCandidates
        \<and> progressSum (migProgress (cr_migration resp)) = 0
        \<and> length (cr_items resp) = length exCandidates
        \<and> map name (cr_items resp) = map c_name exCandidates
        \<and> map sourceId (cr_items resp) = map c_sourceId exCandidates
        \<and> map itemType (cr_items resp) = map c_itemType exCandidates
        \<and> list_all (\<lambda>it. status it = Pending) (cr_items resp)
        \<and> cr_conflicts resp = map (\<lambda>n. (n, NAME_EXISTS)) ([''DB1''] @ []))"
proof -
  have v: "r_sourceSpaceId (exRequest ''skip'') = Some ''S'' \<and> ''S'' \<noteq> []
      \<and> r_targetSpaceId (exRequest ''skip'') = Some ''T'' \<and> ''T'' \<noteq> []
      \<and> r_items (exRequest ''skip'') = Some exCandidates \<and> exCandidates \<noteq> []"
    by (simp add: exRequest_def exCandidates_def)
  have g: "getSpace exRemote ''S'' = Inr \<lparr>spaceName = ''Space S''\<rparr>
      \<and> getSpace exRemote ''T'' = Inr \<lparr>spaceName = ''Space T''\<rparr>
      \<and> checkConnectionConflicts exRemote ''T''
           (map c_name (filter (\<lambda>i. c_itemType i = ''connection'') exCandidates)) = Inr [''DB1'']
      \<and> checkFileConflicts exRemote ''T''
           (map c_name (filter (\<lambda>i. c_itemType i \<noteq> ''connection'') exCandidates)) = Inr []"
    by (simp add: create_defs create_ex_defs)
  note r = createMigration_outcomes [THEN conjunct2, THEN mp, OF v, THEN conjunct2, THEN mp, OF g]
  show ?thesis
    by (rule conjI [OF v conjI [OF g r]])
qed

text \<open>
  Both spaces resolve, yet nothing is stored: listing the target's connections fails.
\<close>

theorem createMigration_listing_failure_counterexample:
  "truthy (r_sourceSpaceId (exRequest ''skip'')) \<and> truthy (r_targetSpaceId (exRequest ''skip''))
   \<and> r_items (exRequest ''skip'') = Some exCandidates \<and> exCandidates \<noteq> []
   \<and> getSpace exRemoteNoList ''S'' = Inr \<lparr>spaceName = ''Space S''\<rparr>
   \<and> getSpace exRemoteNoList ''T'' = Inr \<lparr>spaceName = ''Space T''\<rparr>
   \<and> createMigration exRemoteNoList exUuids ''tenant'' (exRequest ''skip'') emptyStore
       = (Error 500 ''forbidden'', emptyStore)"
  by (simp add: create_defs create_ex_defs)

subsection \<open>A failed lookup of the file-storage connection\<close>

text \<open>
  C9. If resolving the target's file-storage connection throws when a created
  migration is started, the run is rejected before the loop: no item is handled, the
  items stay as stored (pending, as creation left them), and the migration is stored with
  status running, or cancelled if a cancel request was served during the lookup. Whatever
  start and cancel requests follow, the items stay untouched and the status is never
  completed or failed: it is running as long as no cancel request for the migration is
  served, and cancelled after one.
\<close>

theorem resolution_failure_never_finishes:
  assumes "storeOk st"
    and "migrations st mid = Some m"
    and "migStatus m = Created"
    and "migrationItems st mid = Some items"
    and "getDataFilesConnectionId (client env) (targetSpaceId m) = Inl err"
  shows "executeMigration env m items = Inl (err, started env m)
       \<and> migrations (snd (startMigration env mid st)) mid
            = Some (m\<lparr>migStatus := (if cancelAtResolve env then Cancelled else Running)\<rparr>)
       \<and> migrationItems (snd (startMigration env mid st)) mid = Some items
       \<and> (\<forall>rs. migrationItems (serve rs (snd (startMigration env mid st))) mid = Some items
              \<and> (\<exists>m'. migrations (serve rs (snd (startMigration env mid st))) mid = Some m'
                    \<and> (migStatus m' = Running \<or> migStatus m' = Cancelled)
                    \<and> (\<not> cancelAtResolve env \<and> Cancel mid \<notin> set rs \<longrightarrow> migStatus m' = Running)))"
proof -
  let ?st1 = "snd (startMigration env mid st)"
  let ?m1 = "m\<lparr>migStatus := (if cancelAtResolve env then Cancelled else Running)\<rparr>"
  have id: "migId m = mid"
    using assms(1,2) by (simp add: storeOk_def)
  have ex: "executeMigration env m items = Inl (err, started env m)"
    using assms(5) by (simp add: executeMigration_def Let_def)
  have m1: "started env m = ?m1"
    by (simp add: started_def Let_def)
  have st1: "?st1 = st\<lparr>migrations := (migrations st)(mid \<mapsto> ?m1)\<rparr>"
    using assms(2,3,4) ex id by (simp add: startMigration_def m1)
  have ok1: "storeOk ?st1"
    unfolding st1 using assms(1) by (rule storeOk_update) (simp add: id)
  have a: "migrations ?st1 mid = Some ?m1"
    by (simp add: st1)
  have b: "migrationItems ?st1 mid = Some items"
    using assms(4) by (simp add: st1)
  have stuck: "stuckAt mid items (\<not> cancelAtResolve env) ?st1"
    using ok1 b by (simp add: stuckAt_def a)
  then have stuck': "stuckAt mid items False ?st1"
    by (auto simp: stuckAt_def split: option.splits)
  have c: "migrationItems (serve rs ?st1) mid = Some items
        \<and> (\<exists>m'. migrations (serve rs ?st1) mid = Some m'
              \<and> (migStatus m' = Running \<or> migStatus m' = Cancelled)
              \<and> (\<not> cancelAtResolve env \<and> Cancel mid \<notin> set rs \<longrightarrow> migStatus m' = Running))" for rs
  proof -
    from serve_stuck [OF stuck', of rs] have s1: "stuckAt mid items False (serve rs ?st1)"
      by simp
    then obtain m' where m': "migrations (serve rs ?st1) mid = Some m'"
        "migStatus m' = Running \<or> migStatus m' = Cancelled"
      by (auto simp: stuckAt_def split: option.splits)
    have "migStatus m' = Running" if "\<not> cancelAtResolve env" "Cancel mid \<notin> set rs"
    proof -
      from that stuck have "stuckAt mid items True ?st1" by simp
      from serve_stuck [OF this, of rs] that(2) have "stuckAt mid items True (serve rs ?st1)"
        by simp
      with m'(1) show ?thesis by (simp add: stuckAt_def)
    qed
    with s1 m' show ?thesis by (simp add: stuckAt_def)
  qed
  then have d: "\<forall>rs. migrationItems (serve rs ?st1) mid = Some items
        \<and> (\<exists>m'. migrations (serve rs ?st1) mid = Some m'
              \<and> (migStatus m' = Running \<or> migStatus m' = Cancelled)
              \<and> (\<not> cancelAtResolve env \<and> Cancel mid \<notin> set rs \<longrightarrow> migStatus m' = Running))"
    by (rule allI)
  show ?thesis
    by (rule conjI [OF ex conjI [OF a conjI [OF b d]]])
qed

theorem resolution_failure_never_finishes_witness:
  "storeOk exStore
   \<and> migrations exStore ''id-0'' = Some exMigration
   \<and> migStatus exMigration = Created
   \<and> migrationItems exStore ''id-0'' = Some (exItems ''skip'')
   \<and> getDataFilesConnectionId (client exEnvDown) (targetSpaceId exMigration) = Inl ''timeout''
   \<and> executeMigration exEnvDown exMigration (exItems ''skip'')
        = Inl (''timeout'', started exEnvDown exMigration)"
proof -
  have h2: "migrations exStore ''id-0'' = Some exMigration" by (simp add: exStore_def)
  have h3: "migStatus exMigration = Created" by (simp add: exMigration_def)
  have h4: "migrationItems exStore ''id-0'' = Some (exItems ''skip'')" by (simp add: exStore_def)
  show ?thesis
    by (rule conjI [OF exStore_ok conjI [OF h2 conjI [OF h3 conjI [OF h4 conjI [OF exEnvDown_fails
          resolution_failure_never_finishes [OF exStore_ok h2 h3 h4 exEnvDown_fails,
            THEN conjunct1]]]]]])
qed

text \<open>
  The status does not stay running for ever: a cancel request after the failed start
  leaves the migration cancelled.
\<close>

theorem resolution_failure_then_cancel_counterexample:
  "getDataFilesConnectionId (client exEnvDown) (targetSpaceId exMigration) = Inl ''timeout''
   \<and> map_option migStatus
       (migrations (snd (cancelMigration ''id-0'' (snd (startMigration exEnvDown ''id-0'' exStore))))
          ''id-0'') = Some Cancelled"
  by (simp add: exEnvDown_fails startMigration_def cancelMigration_def executeMigration_def
      exStore_def exMigration_def started_def exEnvDown_def exEnv_def exRemote_def
      getDataFilesConnectionId_def Let_def)

subsection \<open>The cancel request\<close>

text \<open>
  C10. For every migration id present in the store, the cancel request stores the
  migration with status \<^verbatim>\<open>'cancelled'\<close> and answers with it, whatever the status was
  before; a migration that had already reached \<^verbatim>\<open>'completed'\<close> or \<^verbatim>\<open>'failed'\<close> loses
  that status.
\<close>

theorem cancelMigration_unconditional:
  assumes "migrations st mid = Some m"
  shows "migrations (snd (cancelMigration mid st)) mid = Some (m\<lparr>migStatus := Cancelled\<rparr>)
         \<and> fst (cancelMigration mid st) = Json (m\<lparr>migStatus := Cancelled\<rparr>)
         \<and> migStatus (the (migrations (snd (cancelMigration mid st)) mid)) = Cancelled"
  using assms by (simp add: cancelMigration_def Let_def)

theorem cancelMigration_unconditional_witness:
  "migrations (exStore\<lparr>migrations := [''id-0'' \<mapsto> exMigration\<lparr>migStatus := MigCompleted\<rparr>]\<rparr>) ''id-0''
     = Some (exMigration\<lparr>migStatus := MigCompleted\<rparr>)
   \<and> migStatus (the (migrations (snd (cancelMigration ''id-0''
         (exStore\<lparr>migrations := [''id-0'' \<mapsto> exMigration\<lparr>migStatus := MigCompleted\<rparr>]\<rparr>))) ''id-0''))
     = Cancelled"
  using cancelMigration_unconditional
    [of "exStore\<lparr>migrations := [''id-0'' \<mapsto> exMigration\<lparr>migStatus := MigCompleted\<rparr>]\<rparr>"
        "''id-0''" "exMigration\<lparr>migStatus := MigCompleted\<rparr>"]
  by simp

end
